theory Spec2Isabelle
  imports Complex_Main "HOL-Library.AList"
begin

section \<open>The event module (src/scenejs/events/eventsModule.js)\<close>

text \<open>
  A handler is the object \<^verbatim>\<open>{ command: command, priority: ... }\<close> that
  \<^verbatim>\<open>addListener\<close> builds. A command is a JavaScript function; it is identified here by a
  number, and what it does when it is called is given by a table (see \<open>runCommand\<close>).
  Priorities are integers.
\<close>

record handler =
  command :: nat
  priority :: int

text \<open>
  \<^verbatim>\<open>var events = new Array(37)\<close>: every slot starts out undefined, and a slot, once it
  holds a list, holds the same array object for ever (\<^verbatim>\<open>addListener\<close> changes the array
  in place with \<^verbatim>\<open>splice\<close> and \<^verbatim>\<open>push\<close>). So the array that
  \<^verbatim>\<open>fireEvent\<close> reads into \<^verbatim>\<open>var list\<close> is the very array a later
  \<^verbatim>\<open>addListener\<close> changes, and the model reads the slot again where the source reads
  \<^verbatim>\<open>list\<close>.
\<close>

type_synonym events = "nat \<Rightarrow> handler list option"

definition noEvents :: events where
  "noEvents = (\<lambda>type. None)"

text \<open>
  The loop of \<^verbatim>\<open>addListener\<close> (lines 89 to 95): the new handler goes in front of the
  first handler whose priority is greater, or to the end of the list.
\<close>

fun insertHandler :: "handler list \<Rightarrow> handler \<Rightarrow> handler list" where
  "insertHandler [] h = [h]"
| "insertHandler (x # xs) h =
     (if priority x > priority h then h # x # xs else x # insertHandler xs h)"

text \<open>
  Lines 85 to 88: the handler object. \<^verbatim>\<open>priority == undefined\<close> holds for a
  missing argument (\<open>None\<close>); the default is the length of the list at that moment.
\<close>

definition newHandler :: "handler list \<Rightarrow> nat \<Rightarrow> int option \<Rightarrow> handler" where
  "newHandler list c p =
     \<lparr>command = c, priority = (case p of None \<Rightarrow> int (length list) | Some q \<Rightarrow> q)\<rparr>"

definition listOf :: "events \<Rightarrow> nat \<Rightarrow> handler list" where
  "listOf ev type = (case ev type of None \<Rightarrow> [] | Some list \<Rightarrow> list)"

definition addListener :: "nat \<Rightarrow> nat \<Rightarrow> int option \<Rightarrow> events \<Rightarrow> events" where
  "addListener type c p ev =
     ev(type \<mapsto> insertHandler (listOf ev type) (newHandler (listOf ev type) c p))"

text \<open>
  What a command does when it is called. The commands of this model register listeners
  (each entry is one call \<^verbatim>\<open>addListener(type, command, priority)\<close>) and do nothing
  else to the event module; the table \<open>body\<close> gives the calls of every command.
\<close>

type_synonym registration = "nat \<times> nat \<times> int option"

fun runCommand :: "registration list \<Rightarrow> events \<Rightarrow> events" where
  "runCommand [] ev = ev"
| "runCommand ((type, c, p) # rs) ev = runCommand rs (addListener type c p ev)"

text \<open>
  The loop of \<^verbatim>\<open>fireEvent\<close> (lines 107 to 109). \<^verbatim>\<open>list.length\<close> is read again at
  every turn, and the list is the live array. The loop need not end (a command can register
  a listener at every call), so it is a partial function: \<open>None\<close> is a loop that runs
  for ever. The result is the event table after the dispatch and the handlers that were
  called, in the order of the calls.
\<close>

partial_function (option) dispatch ::
  "(nat \<Rightarrow> registration list) \<Rightarrow> nat \<Rightarrow> nat \<Rightarrow> events \<Rightarrow> handler list
     \<Rightarrow> (events \<times> handler list) option" where
  "dispatch body type i ev called =
     (if i < length (listOf ev type)
      then dispatch body type (Suc i)
             (runCommand (body (command (listOf ev type ! i))) ev)
             (called @ [listOf ev type ! i])
      else Some (ev, called))"

definition fireEvent ::
  "(nat \<Rightarrow> registration list) \<Rightarrow> nat \<Rightarrow> events \<Rightarrow> (events \<times> handler list) option" where
  "fireEvent body type ev =
     (case ev type of None \<Rightarrow> Some (ev, []) | Some list \<Rightarrow> dispatch body type 0 ev [])"

text \<open>A sequence of \<^verbatim>\<open>addListener\<close> calls on one event kind, in the order of the calls.\<close>

fun addListeners :: "nat \<Rightarrow> (nat \<times> int option) list \<Rightarrow> events \<Rightarrow> events" where
  "addListeners type [] ev = ev"
| "addListeners type ((c, p) # rs) ev = addListeners type rs (addListener type c p ev)"

text \<open>
  The handlers that those calls build, in registration order: each priority is resolved
  against the list as it is at the moment of the call.
\<close>

fun registered :: "nat \<Rightarrow> (nat \<times> int option) list \<Rightarrow> events \<Rightarrow> handler list" where
  "registered type [] ev = []"
| "registered type ((c, p) # rs) ev =
     newHandler (listOf ev type) c p # registered type rs (addListener type c p ev)"

text \<open>
  A command is quiet for an event kind when none of its calls registers a listener for
  that kind.
\<close>

definition quiet :: "(nat \<Rightarrow> registration list) \<Rightarrow> nat \<Rightarrow> nat \<Rightarrow> bool" where
  "quiet body type c = list_all (\<lambda>r. fst r \<noteq> type) (body c)"

text \<open>
  An example table: command 11 registers command 12 for \<^verbatim>\<open>SCENE_RENDERING\<close> (29) with the
  default priority; every other command registers nothing.
\<close>

definition exBody :: "nat \<Rightarrow> registration list" where
  "exBody c = (if c = 11 then [(29, 12, None)] else [])"

section \<open>Errors\<close>

text \<open>
  What the modules throw. \<^verbatim>\<open>SceneJS_errorModule.fatalError(SceneJS.errors.ILLEGAL_NODE_CONFIG,
  message)\<close> is \<open>ILLEGAL_NODE_CONFIG\<close> with the message it carries;
  \<^verbatim>\<open>fatalError("morph not found: '" + handle.resource + "'")\<close> is \<open>MorphNotFound\<close>
  with the resource id; \<open>TypeError\<close> is what JavaScript raises when a property of
  \<^verbatim>\<open>null\<close> or \<^verbatim>\<open>undefined\<close> is read or written; \<open>AllocationFailure\<close> is what the
  buffer constructor throws.
\<close>

datatype message =
    OpticsTypeNotSpecified
  | OpticsTypeNotSupported
  | AtLeastTwoTargets
  | KeysTargetsMismatch

datatype error =
    ILLEGAL_NODE_CONFIG message
  | MorphNotFound string
  | TypeError
  | AllocationFailure

section \<open>The camera node (src/scenejs/transformation/camera/camera.js)\<close>

text \<open>
  The object that \<^verbatim>\<open>setOptics\<close> stores in \<^verbatim>\<open>this.attr.optics\<close>: one of three shapes,
  with the fields in the order of the source (\<open>Ortho\<close> and \<open>Frustum\<close>: left, bottom,
  near, right, top, far; \<open>Perspective\<close>: fovy, aspect, near, far).
\<close>

datatype optics =
    Ortho real real real real real real
  | Frustum real real real real real real
  | Perspective real real real real

text \<open>
  The argument of \<^verbatim>\<open>setOptics\<close>: an object whose properties may be missing. Numbers are
  real numbers here.
\<close>

record optics_params =
  p_type :: "string option"
  p_left :: "real option"
  p_bottom :: "real option"
  p_near :: "real option"
  p_right :: "real option"
  p_top :: "real option"
  p_far :: "real option"
  p_fovy :: "real option"
  p_aspect :: "real option"

text \<open>\<^verbatim>\<open>x || d\<close> on an optional number: a missing property and zero are both falsy.\<close>

definition orDefault :: "real option \<Rightarrow> real \<Rightarrow> real" where
  "orDefault x d = (case x of None \<Rightarrow> d | Some v \<Rightarrow> if v = 0 then d else v)"

text \<open>
  Objects and arrays have an identity: the store maps addresses to contents, and a new
  object or array takes the next address. \<open>mathCalls\<close> counts the calls of the matrix
  functions of the math library, which is how a recomputation is observed.
\<close>

record store =
  objs :: "nat \<Rightarrow> optics"
  nextObj :: nat
  arrays :: "nat \<Rightarrow> real list"
  nextArray :: nat
  mathCalls :: nat

text \<open>
  \<^verbatim>\<open>this._transform\<close>: the optics it was built from and a reference to the matrix array.
  The node: a reference to the optics object, the transform (undefined until the first
  rebuild) and the memo level.
\<close>

record transform =
  t_optics :: optics
  matrix :: nat

record camera =
  attr_optics :: nat
  transform :: "transform option"
  compileMemoLevel :: nat

text \<open>
  The matrix functions \<^verbatim>\<open>SceneJS_math_orthoMat4c\<close>, \<^verbatim>\<open>SceneJS_math_frustumMatrix4\<close> and
  \<^verbatim>\<open>SceneJS_math_perspectiveMatrix4\<close> are not part of these sources; they are parameters.
\<close>

record math =
  orthoMat4c :: "real \<Rightarrow> real \<Rightarrow> real \<Rightarrow> real \<Rightarrow> real \<Rightarrow> real \<Rightarrow> real list"
  frustumMatrix4 :: "real \<Rightarrow> real \<Rightarrow> real \<Rightarrow> real \<Rightarrow> real \<Rightarrow> real \<Rightarrow> real list"
  perspectiveMatrix4 :: "real \<Rightarrow> real \<Rightarrow> real \<Rightarrow> real \<Rightarrow> real list"

text \<open>
  Modelled from the spec: \<^verbatim>\<open>_resetCompilationMemos\<close> belongs to the node base class, which
  is not part of these sources. The spec (4.5): any configuration-mutating setter resets
  the memo level to 0.
\<close>

definition resetCompilationMemos :: "camera \<Rightarrow> camera" where
  "resetCompilationMemos cam = cam\<lparr>compileMemoLevel := 0\<rparr>"

text \<open>
  Lines 10 to 58 of \<^verbatim>\<open>setOptics\<close>: the object to store, or the error thrown. A missing
  argument gives the default perspective; \<^verbatim>\<open>!optics.type\<close> holds for a missing type and
  for the empty string.
\<close>

definition newOptics :: "optics_params option \<Rightarrow> error + optics" where
  "newOptics optics =
     (case optics of
        None \<Rightarrow> Inr (Perspective 60 1 (1 / 10) 5000)
      | Some p \<Rightarrow>
          if p_type p = Some ''ortho'' then
            Inr (Ortho (orDefault (p_left p) (- 1)) (orDefault (p_bottom p) (- 1))
                   (orDefault (p_near p) (1 / 10)) (orDefault (p_right p) 1)
                   (orDefault (p_top p) 1) (orDefault (p_far p) 5000))
          else if p_type p = Some ''frustum'' then
            Inr (Frustum (orDefault (p_left p) (- 1)) (orDefault (p_bottom p) (- 1))
                   (orDefault (p_near p) (1 / 10)) (orDefault (p_right p) 1)
                   (orDefault (p_top p) 1) (orDefault (p_far p) 5000))
          else if p_type p = Some ''perspective'' then
            Inr (Perspective (orDefault (p_fovy p) 60) (orDefault (p_aspect p) 1)
                   (orDefault (p_near p) (1 / 10)) (orDefault (p_far p) 5000))
          else if p_type p = None \<or> p_type p = Some [] then
            Inl (ILLEGAL_NODE_CONFIG OpticsTypeNotSpecified)
          else Inl (ILLEGAL_NODE_CONFIG OpticsTypeNotSupported))"

text \<open>
  \<^verbatim>\<open>setOptics\<close>: a throw leaves the node as it was; otherwise the new object is stored
  and the memos are reset (line 59).
\<close>

definition setOptics ::
  "optics_params option \<Rightarrow> camera \<Rightarrow> store \<Rightarrow> error + (camera \<times> store)" where
  "setOptics optics cam s =
     (case newOptics optics of
        Inl e \<Rightarrow> Inl e
      | Inr obj \<Rightarrow>
          Inr (resetCompilationMemos (cam\<lparr>attr_optics := nextObj s\<rparr>),
               s\<lparr>objs := (objs s)(nextObj s := obj), nextObj := Suc (nextObj s)\<rparr>))"

text \<open>
  \<^verbatim>\<open>_init\<close> (lines 5 to 7). The node object \<open>cam\<close> is \<^verbatim>\<open>this\<close> as the base class
  constructor (not in these sources) leaves it.
\<close>

definition init ::
  "optics_params option \<Rightarrow> camera \<Rightarrow> store \<Rightarrow> error + (camera \<times> store)" where
  "init params_optics cam s = setOptics params_optics cam s"

text \<open>
  \<^verbatim>\<open>getOptics\<close>: a new object \<^verbatim>\<open>{}\<close> that receives every own property of
  \<^verbatim>\<open>this.attr.optics\<close>. The result is the address of the new object.
\<close>

definition getOptics :: "camera \<Rightarrow> store \<Rightarrow> nat \<times> store" where
  "getOptics cam s =
     (nextObj s,
      s\<lparr>objs := (objs s)(nextObj s := objs s (attr_optics cam)), nextObj := Suc (nextObj s)\<rparr>)"

text \<open>The matrix function that \<^verbatim>\<open>_rebuild\<close> calls for each shape, with its arguments.\<close>

fun matrixOf :: "math \<Rightarrow> optics \<Rightarrow> real list" where
  "matrixOf M (Ortho l b n r t f) = orthoMat4c M l r b t n f"
| "matrixOf M (Frustum l b n r t f) = frustumMatrix4 M l r b t n f"
| "matrixOf M (Perspective fovy aspect n f) =
     perspectiveMatrix4 M (fovy * pi / 180) aspect n f"

text \<open>
  \<^verbatim>\<open>_rebuild\<close>: when the memo level is 0, a new transform with a new matrix array (the
  result of the matrix function), and the memo level becomes 1.
\<close>

definition rebuild :: "math \<Rightarrow> camera \<Rightarrow> store \<Rightarrow> camera \<times> store" where
  "rebuild M cam s =
     (if compileMemoLevel cam = 0 then
        (cam\<lparr>transform := Some \<lparr>t_optics = objs s (attr_optics cam), matrix = nextArray s\<rparr>,
             compileMemoLevel := 1\<rparr>,
         s\<lparr>arrays := (arrays s)(nextArray s := matrixOf M (objs s (attr_optics cam))),
           nextArray := Suc (nextArray s),
           mathCalls := Suc (mathCalls s)\<rparr>)
      else (cam, s))"

text \<open>
  \<^verbatim>\<open>getMatrix\<close>: rebuild when the memo level is 0, then
  \<^verbatim>\<open>this._transform.matrix.slice(0)\<close>, a new array with the same elements. Reading
  \<^verbatim>\<open>matrix\<close> of an undefined transform is a TypeError. The result is the address of the
  new array.
\<close>

definition sliceMatrix :: "camera \<Rightarrow> store \<Rightarrow> error + (nat \<times> camera \<times> store)" where
  "sliceMatrix cam s =
     (case transform cam of
        None \<Rightarrow> Inl TypeError
      | Some t \<Rightarrow>
          Inr (nextArray s, cam,
               s\<lparr>arrays := (arrays s)(nextArray s := arrays s (matrix t)),
                 nextArray := Suc (nextArray s)\<rparr>))"

definition getMatrix :: "math \<Rightarrow> camera \<Rightarrow> store \<Rightarrow> error + (nat \<times> camera \<times> store)" where
  "getMatrix M cam s =
     (if compileMemoLevel cam = 0
      then (case rebuild M cam s of (cam', s') \<Rightarrow> sliceMatrix cam' s')
      else sliceMatrix cam s)"

text \<open>
  Every reference that the node holds is the address of an object or array of the store.
\<close>

definition refs_ok :: "camera \<Rightarrow> store \<Rightarrow> bool" where
  "refs_ok cam s =
     (attr_optics cam < nextObj s \<and>
      (case transform cam of None \<Rightarrow> True | Some t \<Rightarrow> matrix t < nextArray s))"

text \<open>Example values: a math library that returns its arguments, and an empty store.\<close>

definition exMath :: math where
  "exMath = \<lparr>orthoMat4c = (\<lambda>l r b t n f. [l, r, b, t, n, f]),
             frustumMatrix4 = (\<lambda>l r b t n f. [l, r, b, t, n, f]),
             perspectiveMatrix4 = (\<lambda>fovy aspect n f. [fovy, aspect, n, f])\<rparr>"

definition exStore :: store where
  "exStore = \<lparr>objs = (\<lambda>a. Perspective 0 0 0 0), nextObj = 0,
              arrays = (\<lambda>a. []), nextArray = 0, mathCalls = 0\<rparr>"

definition exThis :: camera where
  "exThis = \<lparr>attr_optics = 0, transform = None, compileMemoLevel = 7\<rparr>"

definition exOrtho :: optics_params where
  "exOrtho = \<lparr>p_type = Some ''ortho'', p_left = Some (- 2), p_bottom = None, p_near = Some 0,
              p_right = Some 2, p_top = None, p_far = Some 100, p_fovy = None, p_aspect = None\<rparr>"

text \<open>The node and the store after \<^verbatim>\<open>_init\<close> with \<open>exOrtho\<close> on \<open>exThis\<close> and \<open>exStore\<close>.\<close>

definition exCam :: camera where
  "exCam = \<lparr>attr_optics = 0, transform = None, compileMemoLevel = 0\<rparr>"

definition exStore1 :: store where
  "exStore1 = \<lparr>objs = (\<lambda>a. Perspective 0 0 0 0)(0 := Ortho (- 2) (- 1) (1 / 10) 2 1 100),
               nextObj = Suc 0, arrays = (\<lambda>a. []), nextArray = 0, mathCalls = 0\<rparr>"

text \<open>
  What the node holds, read through its references: the stored optics, the transform with
  the elements of its matrix, and the memo level.
\<close>

definition nodeState :: "camera \<Rightarrow> store \<Rightarrow> optics \<times> (optics \<times> real list) option \<times> nat" where
  "nodeState cam s =
     (objs s (attr_optics cam),
      map_option (\<lambda>t. (t_optics t, arrays s (matrix t))) (transform cam),
      compileMemoLevel cam)"

section \<open>The morph geometry module (src/scenejs/morphGeometry/morphGeometry.js)\<close>

subsection \<open>Data\<close>

text \<open>
  The canvas object of the compile event (\<^verbatim>\<open>params.canvas\<close>), a target of the source
  data (every array may be missing), a target of a morph (every buffer may be missing; a
  buffer is identified by its handle), and the handle that \<^verbatim>\<open>_createMorph\<close> returns.
\<close>

record canvas_obj =
  canvasId :: string

record target_data =
  positions :: "real list option"
  normals :: "real list option"
  uv :: "real list option"
  uv2 :: "real list option"

record target =
  vertexBuf :: "nat option"
  normalBuf :: "nat option"
  uvBuf :: "nat option"
  uvBuf2 :: "nat option"

record morph_data =
  d_keys :: "real list"
  d_targets :: "target_data list"

record handle =
  h_canvasId :: string
  h_resource :: string

text \<open>
  A morph object. Morph objects are shared by reference between the cache and the stack,
  and \<^verbatim>\<open>pushMorphGeometry\<close> writes the property \<^verbatim>\<open>factor\<close> of the shared object. So a
  morph carries its identity \<open>m_oid\<close>, and the one property that is written after creation
  lives in the state, by identity (\<open>factors\<close>).
\<close>

record morph =
  m_oid :: nat
  m_canvas :: canvas_obj
  m_resource :: string
  m_keys :: "real list"
  m_targets :: "target list"

text \<open>
  The result of arithmetic on numbers that may be undefined: a real number, or what
  JavaScript gives for \<^verbatim>\<open>0/0\<close>, for an undefined operand, and for a division of a
  non-zero number by zero.
\<close>

datatype number = Num real | NaN | PosInfinity | NegInfinity

text \<open>
  The calls of the render module: \<^verbatim>\<open>setMorph(id, {factor, target1, target2})\<close> and
  \<^verbatim>\<open>setMorph()\<close>.
\<close>

datatype morph_call =
    SetMorph "string option" number "target option" "target option"
  | SetMorphNull

text \<open>
  What a property read finds on a plain object that has no own property of that name.
  \<^verbatim>\<open>canvasMorphs\<close> and the maps of morphs are created as \<^verbatim>\<open>{}\<close>, so they inherit from
  \<^verbatim>\<open>Object.prototype\<close>: \<open>ofPrototype k\<close> says whether \<^verbatim>\<open>Object.prototype\<close> has a
  property \<open>k\<close> and whether its value is truthy (\<^verbatim>\<open>constructor\<close> and \<^verbatim>\<open>toString\<close> are
  functions, for one), and \<open>ofValue k r\<close> says the same of the property \<open>r\<close> of that
  value. The values themselves are not morphs, and none of them has a property
  \<^verbatim>\<open>canvas\<close>.
\<close>

datatype inherited = NoProperty | FalsyValue | TruthyValue

record builtins =
  ofPrototype :: "string \<Rightarrow> inherited"
  ofValue :: "string \<Rightarrow> string \<Rightarrow> inherited"

text \<open>
  The variables of the module (lines 6 to 13), with what the module reads and changes
  outside itself. \<open>canvasMorphs\<close> and each map of morphs are objects used as maps: lists of
  key and value in insertion order, a value being a morph or \<^verbatim>\<open>null\<close> (\<open>None\<close>).
  \<open>currentMorphs\<close> is a reference to one of the maps of \<open>canvasMorphs\<close>, hence the canvas
  id of that map. The two stacks are arrays written at index \<open>stackLen\<close>, which can be any
  integer. \<open>document\<close> holds the ids of the canvas elements that exist
  (\<^verbatim>\<open>document.getElementById\<close>); \<open>liveBufs\<close>, \<open>allocs\<close> and \<open>failing\<close> are the state of
  the buffer primitive; \<open>setMorphCalls\<close> are the calls made to the render module;
  \<open>objectEnv\<close> is what plain objects inherit.
\<close>

record state =
  canvas :: "canvas_obj option"
  canvasMorphs :: "(string \<times> (string \<times> morph option) list) list"
  currentMorphs :: "string option"
  idStack :: "int \<Rightarrow> string option"
  morphStack :: "int \<Rightarrow> morph option"
  stackLen :: int
  dirty :: bool
  factors :: "nat \<Rightarrow> real option"
  nextMorph :: nat
  document :: "string set"
  liveBufs :: "nat set"
  allocs :: nat
  failing :: "nat \<Rightarrow> bool"
  setMorphCalls :: "morph_call list"
  objectEnv :: builtins

text \<open>
  The module as it is loaded, for a document, a behaviour of the allocator and what plain
  objects inherit.
\<close>

definition initState :: "string set \<Rightarrow> (nat \<Rightarrow> bool) \<Rightarrow> builtins \<Rightarrow> state" where
  "initState doc fails env =
     \<lparr>canvas = None, canvasMorphs = [], currentMorphs = None,
      idStack = (\<lambda>i. None), morphStack = (\<lambda>i. None), stackLen = 0, dirty = False,
      factors = (\<lambda>a. None), nextMorph = 0,
      document = doc, liveBufs = {}, allocs = 0, failing = fails, setMorphCalls = [],
      objectEnv = env\<rparr>"

subsection \<open>The buffer primitive\<close>

text \<open>
  Modelled from the spec: \<^verbatim>\<open>SceneJS_webgl_ArrayBuffer\<close> is not part of these sources. The
  spec (6, 7): \<^verbatim>\<open>allocate(...) -> bufferHandle\<close>, which can fail, and
  \<^verbatim>\<open>bufferHandle.destroy()\<close>. The \<open>n\<close>-th allocation since the module was loaded throws
  when \<open>failing n\<close> holds; otherwise it returns a new handle, which is live until it is
  destroyed.
\<close>

definition newArrayBuffer :: "state \<Rightarrow> (error + nat) \<times> state" where
  "newArrayBuffer st =
     (if failing st (allocs st)
      then (Inl AllocationFailure, st\<lparr>allocs := Suc (allocs st)\<rparr>)
      else (Inr (allocs st),
            st\<lparr>liveBufs := insert (allocs st) (liveBufs st), allocs := Suc (allocs st)\<rparr>))"

definition destroyBuffer :: "nat \<Rightarrow> state \<Rightarrow> state" where
  "destroyBuffer b st = st\<lparr>liveBufs := liveBufs st - {b}\<rparr>"

subsection \<open>The compile event\<close>

text \<open>The listener of \<^verbatim>\<open>SCENE_COMPILING\<close> (lines 17 to 24).\<close>

definition onSceneCompiling :: "canvas_obj \<Rightarrow> state \<Rightarrow> state" where
  "onSceneCompiling c st =
     st\<lparr>canvas := Some c,
        canvasMorphs :=
          (if map_of (canvasMorphs st) (canvasId c) = None
           then canvasMorphs st @ [(canvasId c, [])] else canvasMorphs st),
        currentMorphs := Some (canvasId c),
        stackLen := 0\<rparr>"

subsection \<open>The render event\<close>

text \<open>
  \<^verbatim>\<open>a[i]\<close> for any integer \<open>i\<close>: undefined outside the array. Comparisons with an
  undefined operand are false.
\<close>

definition elemAt :: "'a list \<Rightarrow> int \<Rightarrow> 'a option" where
  "elemAt xs i = (if 0 \<le> i \<and> i < int (length xs) then Some (xs ! nat i) else None)"

definition atOpt :: "'a list \<Rightarrow> int option \<Rightarrow> 'a option" where
  "atOpt xs i = (case i of None \<Rightarrow> None | Some j \<Rightarrow> elemAt xs j)"

definition le_js :: "real option \<Rightarrow> real option \<Rightarrow> bool" where
  "le_js a b = (case a of None \<Rightarrow> False | Some x \<Rightarrow> (case b of None \<Rightarrow> False | Some y \<Rightarrow> x \<le> y))"

definition ge_js :: "real option \<Rightarrow> real option \<Rightarrow> bool" where
  "ge_js a b = (case a of None \<Rightarrow> False | Some x \<Rightarrow> (case b of None \<Rightarrow> False | Some y \<Rightarrow> x \<ge> y))"

definition gt_js :: "real option \<Rightarrow> real option \<Rightarrow> bool" where
  "gt_js a b = (case a of None \<Rightarrow> False | Some x \<Rightarrow> (case b of None \<Rightarrow> False | Some y \<Rightarrow> x > y))"

text \<open>
  The loop of lines 66 to 72, \<^verbatim>\<open>for (i = n - 1; i >= 0; i--)\<close>: \<open>scanFrom factor keys n\<close>
  is the first \<open>i\<close> below \<open>n\<close>, from the top, with \<^verbatim>\<open>factor > keys[i]\<close>, if there is one.
\<close>

fun scanFrom :: "real option \<Rightarrow> real list \<Rightarrow> nat \<Rightarrow> nat option" where
  "scanFrom factor keys 0 = None"
| "scanFrom factor keys (Suc i) =
     (if gt_js factor (elemAt keys (int i)) then Some i else scanFrom factor keys i)"

text \<open>
  Lines 44 to 74: the factor after clamping, \<^verbatim>\<open>key1\<close> and \<^verbatim>\<open>key2\<close> (undefined when the
  loop finds nothing), for a morph with \<open>n\<close> targets.
\<close>

definition findTargetFrame ::
  "real option \<Rightarrow> real list \<Rightarrow> nat \<Rightarrow> real option \<times> int option \<times> int option" where
  "findTargetFrame factor keys n =
     (if le_js factor (elemAt keys 0) then (elemAt keys 0, Some 0, Some 1)
      else if ge_js factor (elemAt keys (int (length keys) - 1))
      then (elemAt keys (int (length keys) - 1),
            Some (int (length keys) - 2), Some (int (length keys) - 1))
      else (case scanFrom factor keys n of
              Some i \<Rightarrow> (factor, Some (int i), Some (int i + 1))
            | None \<Rightarrow> (factor, None, None)))"

text \<open>Line 78: \<^verbatim>\<open>(factor - k1) / (k2 - k1)\<close>.\<close>

definition normalise :: "real option \<Rightarrow> real option \<Rightarrow> real option \<Rightarrow> number" where
  "normalise factor k1 k2 =
     (case (factor, k1, k2) of
        (Some f, Some a, Some b) \<Rightarrow>
          if b - a \<noteq> 0 then Num ((f - a) / (b - a))
          else if f - a = 0 then NaN
          else if f - a > 0 then PosInfinity else NegInfinity
      | _ \<Rightarrow> NaN)"

text \<open>
  The listener of \<^verbatim>\<open>SCENE_RENDERING\<close> (lines 28 to 90). Reading \<^verbatim>\<open>factor\<close> of an
  undefined stack entry is a TypeError.
\<close>

definition onSceneRendering :: "state \<Rightarrow> (error + unit) \<times> state" where
  "onSceneRendering st =
     (if dirty st then
        (if stackLen st > 0 then
           (case morphStack st (stackLen st - 1) of
              None \<Rightarrow> (Inl TypeError, st)
            | Some morph \<Rightarrow>
                (case findTargetFrame (factors st (m_oid morph)) (m_keys morph)
                        (length (m_targets morph)) of
                   (factor, key1, key2) \<Rightarrow>
                     (Inr (),
                      st\<lparr>setMorphCalls := setMorphCalls st @
                           [SetMorph (idStack st (stackLen st - 1))
                              (normalise factor (atOpt (m_keys morph) key1)
                                 (atOpt (m_keys morph) key2))
                              (atOpt (m_targets morph) key1)
                              (atOpt (m_targets morph) key2)],
                         dirty := False\<rparr>)))
         else (Inr (), st\<lparr>setMorphCalls := setMorphCalls st @ [SetMorphNull], dirty := False\<rparr>))
      else (Inr (), st))"

subsection \<open>Destroying\<close>

text \<open>The four tests of lines 121 to 132 (and 236 to 247), and the loop around them.\<close>

definition destroyIf :: "nat option \<Rightarrow> state \<Rightarrow> state" where
  "destroyIf b st = (case b of None \<Rightarrow> st | Some h \<Rightarrow> destroyBuffer h st)"

definition destroyTarget :: "target \<Rightarrow> state \<Rightarrow> state" where
  "destroyTarget t st =
     destroyIf (uvBuf2 t) (destroyIf (uvBuf t) (destroyIf (normalBuf t) (destroyIf (vertexBuf t) st)))"

fun destroyTargets :: "target list \<Rightarrow> state \<Rightarrow> state" where
  "destroyTargets [] st = st"
| "destroyTargets (t # ts) st = destroyTargets ts (destroyTarget t st)"

text \<open>\<^verbatim>\<open>canvasMorphs[cid][resource] = v\<close>, for a canvas id that has a map.\<close>

definition putMorph ::
  "string \<Rightarrow> string \<Rightarrow> morph option \<Rightarrow> (string \<times> (string \<times> morph option) list) list
     \<Rightarrow> (string \<times> (string \<times> morph option) list) list" where
  "putMorph cid resource v cm = AList.map_entry cid (AList.update resource v) cm"

text \<open>
  \<^verbatim>\<open>destroyMorph\<close> (lines 116 to 139). The argument can be \<^verbatim>\<open>null\<close>, and reading
  \<^verbatim>\<open>morph.canvas\<close> is then a TypeError. The buffers are destroyed only when the canvas
  element still exists; the entry of the cache is set to \<^verbatim>\<open>null\<close> when the canvas has a
  map. (When the canvas id has no own map and names an inherited value, the write goes to
  that value, and the cache stays as it is.)
\<close>

definition destroyMorph :: "morph option \<Rightarrow> state \<Rightarrow> (error + unit) \<times> state" where
  "destroyMorph morph st =
     (case morph of
        None \<Rightarrow> (Inl TypeError, st)
      | Some m \<Rightarrow>
          (let st1 = (if canvasId (m_canvas m) \<in> document st
                      then destroyTargets (m_targets m) st else st)
           in (Inr (),
               (case map_of (canvasMorphs st1) (canvasId (m_canvas m)) of
                  None \<Rightarrow> st1
                | Some morphs \<Rightarrow>
                    st1\<lparr>canvasMorphs :=
                          putMorph (canvasId (m_canvas m)) (m_resource m) None (canvasMorphs st1)\<rparr>))))"

text \<open>
  \<open>entry\<close> is the own property \<^verbatim>\<open>canvasMorphs[cid][resource]\<close>: no own map for the
  canvas, no such own key, the key bound to \<^verbatim>\<open>null\<close>, or a morph.
\<close>

definition entry :: "state \<Rightarrow> string \<Rightarrow> string \<Rightarrow> morph option option" where
  "entry st cid resource =
     (case map_of (canvasMorphs st) cid of None \<Rightarrow> None | Some morphs \<Rightarrow> map_of morphs resource)"

text \<open>
  \<^verbatim>\<open>destroyMorphGeometry\<close> (lines 253 to 263). The two reads
  \<^verbatim>\<open>canvasMorphs[handle.canvasId]\<close> and \<^verbatim>\<open>morphs[handle.resource]\<close> are property reads
  with no \<^verbatim>\<open>hasOwnProperty\<close> test, so an id that is not an own key finds what the object
  inherits. For the canvas id: nothing or a falsy value, and the function returns; a
  truthy value, and \<^verbatim>\<open>morphs\<close> is that value, whose property \<^verbatim>\<open>handle.resource\<close> is
  read next. For the resource id: nothing, a falsy value or \<^verbatim>\<open>null\<close>, and "morph not
  found" is thrown; a morph, and it is destroyed; a truthy inherited value, and
  \<^verbatim>\<open>destroyMorph\<close> is called with it and reads \<^verbatim>\<open>morph.canvas.canvasId\<close>, which is a
  TypeError.
\<close>

definition destroyMorphGeometry :: "handle \<Rightarrow> state \<Rightarrow> (error + unit) \<times> state" where
  "destroyMorphGeometry h st =
     (case map_of (canvasMorphs st) (h_canvasId h) of
        None \<Rightarrow>
          (case ofPrototype (objectEnv st) (h_canvasId h) of
             TruthyValue \<Rightarrow>
               (case ofValue (objectEnv st) (h_canvasId h) (h_resource h) of
                  TruthyValue \<Rightarrow> (Inl TypeError, st)
                | _ \<Rightarrow> (Inl (MorphNotFound (h_resource h)), st))
           | _ \<Rightarrow> (Inr (), st))
      | Some morphs \<Rightarrow>
          (case map_of morphs (h_resource h) of
             Some (Some m) \<Rightarrow> destroyMorph (Some m) st
           | Some None \<Rightarrow> (Inl (MorphNotFound (h_resource h)), st)
           | None \<Rightarrow>
               (case ofPrototype (objectEnv st) (h_resource h) of
                  TruthyValue \<Rightarrow> (Inl TypeError, st)
                | _ \<Rightarrow> (Inl (MorphNotFound (h_resource h)), st))))"

subsection \<open>The reset event\<close>

text \<open>
  The listener of \<^verbatim>\<open>RESET\<close> (lines 94 to 110): for every canvas id, for every key of its
  map, \<^verbatim>\<open>destroyMorph(morphs[resource])\<close>. The keys are those the map has when its loop
  starts; the values are read when their turn comes. An exception leaves the loops, and
  the four assignments at the end are not made.
\<close>

fun resetMorphs :: "string \<Rightarrow> string list \<Rightarrow> state \<Rightarrow> (error + unit) \<times> state" where
  "resetMorphs cid [] st = (Inr (), st)"
| "resetMorphs cid (r # rs) st =
     (case destroyMorph (case entry st cid r of None \<Rightarrow> None | Some v \<Rightarrow> v) st of
        (Inl e, st') \<Rightarrow> (Inl e, st')
      | (Inr u, st') \<Rightarrow> resetMorphs cid rs st')"

fun resetCanvases :: "string list \<Rightarrow> state \<Rightarrow> (error + unit) \<times> state" where
  "resetCanvases [] st = (Inr (), st)"
| "resetCanvases (cid # cids) st =
     (case resetMorphs cid
             (case map_of (canvasMorphs st) cid of None \<Rightarrow> [] | Some morphs \<Rightarrow> map fst morphs) st of
        (Inl e, st') \<Rightarrow> (Inl e, st')
      | (Inr u, st') \<Rightarrow> resetCanvases cids st')"

definition onReset :: "state \<Rightarrow> (error + unit) \<times> state" where
  "onReset st =
     (case resetCanvases (map fst (canvasMorphs st)) st of
        (Inl e, st') \<Rightarrow> (Inl e, st')
      | (Inr u, st') \<Rightarrow>
          (Inr (), st'\<lparr>canvas := None, canvasMorphs := [], currentMorphs := None, stackLen := 0\<rparr>))"

subsection \<open>Creating\<close>

text \<open>
  Lines 208 to 223: one buffer for an array that is there and not empty. Then the body of
  the loop of \<^verbatim>\<open>_createMorph\<close> for one target: \<^verbatim>\<open>newTarget\<close> is already in
  \<^verbatim>\<open>morph.targets\<close> when the allocations start, so on a failure the result still holds
  the target with the buffers allocated so far.
\<close>

definition allocIf :: "real list option \<Rightarrow> state \<Rightarrow> (error + nat option) \<times> state" where
  "allocIf arr st =
     (case arr of
        None \<Rightarrow> (Inr None, st)
      | Some xs \<Rightarrow>
          if length xs > 0 then
            (case newArrayBuffer st of
               (Inl e, st') \<Rightarrow> (Inl e, st')
             | (Inr b, st') \<Rightarrow> (Inr (Some b), st'))
          else (Inr None, st))"

definition createTarget :: "target_data \<Rightarrow> state \<Rightarrow> error option \<times> target \<times> state" where
  "createTarget t st =
     (case allocIf (positions t) st of
        (Inl e, st1) \<Rightarrow>
          (Some e, \<lparr>vertexBuf = None, normalBuf = None, uvBuf = None, uvBuf2 = None\<rparr>, st1)
      | (Inr v, st1) \<Rightarrow>
     (case allocIf (normals t) st1 of
        (Inl e, st2) \<Rightarrow>
          (Some e, \<lparr>vertexBuf = v, normalBuf = None, uvBuf = None, uvBuf2 = None\<rparr>, st2)
      | (Inr n, st2) \<Rightarrow>
     (case allocIf (uv t) st2 of
        (Inl e, st3) \<Rightarrow>
          (Some e, \<lparr>vertexBuf = v, normalBuf = n, uvBuf = None, uvBuf2 = None\<rparr>, st3)
      | (Inr u, st3) \<Rightarrow>
     (case allocIf (uv2 t) st3 of
        (Inl e, st4) \<Rightarrow>
          (Some e, \<lparr>vertexBuf = v, normalBuf = n, uvBuf = u, uvBuf2 = None\<rparr>, st4)
      | (Inr u2, st4) \<Rightarrow>
          (None, \<lparr>vertexBuf = v, normalBuf = n, uvBuf = u, uvBuf2 = u2\<rparr>, st4)))))"

fun createTargets ::
  "target_data list \<Rightarrow> target list \<Rightarrow> state \<Rightarrow> error option \<times> target list \<times> state" where
  "createTargets [] acc st = (None, acc, st)"
| "createTargets (t # ts) acc st =
     (case createTarget t st of
        (Some e, newTarget, st') \<Rightarrow> (Some e, acc @ [newTarget], st')
      | (None, newTarget, st') \<Rightarrow> createTargets ts (acc @ [newTarget]) st')"

text \<open>
  \<^verbatim>\<open>_createMorph\<close> (lines 186 to 251). \<^verbatim>\<open>canvas.context\<close> of an undefined canvas is
  a TypeError outside the \<^verbatim>\<open>try\<close>. Inside it, an exception of an allocation, or of the
  write to \<^verbatim>\<open>currentMorphs\<close> when that is \<^verbatim>\<open>null\<close>, is caught: the buffers of
  \<^verbatim>\<open>morph.targets\<close> are destroyed and the exception is thrown again. The argument
  \<^verbatim>\<open>options\<close> is not used.
\<close>

definition createMorph :: "string \<Rightarrow> morph_data \<Rightarrow> state \<Rightarrow> (error + handle) \<times> state" where
  "createMorph resource data st =
     (case canvas st of
        None \<Rightarrow> (Inl TypeError, st)
      | Some c \<Rightarrow>
          (case createTargets (d_targets data) [] st of
             (Some e, targets, st') \<Rightarrow> (Inl e, destroyTargets targets st')
           | (None, targets, st') \<Rightarrow>
               (case currentMorphs st' of
                  None \<Rightarrow> (Inl TypeError, destroyTargets targets st')
                | Some cid \<Rightarrow>
                    (Inr \<lparr>h_canvasId = canvasId c, h_resource = resource\<rparr>,
                     st'\<lparr>canvasMorphs :=
                           putMorph cid resource
                             (Some \<lparr>m_oid = nextMorph st', m_canvas = c, m_resource = resource,
                                    m_keys = d_keys data, m_targets = targets\<rparr>)
                             (canvasMorphs st'),
                         nextMorph := Suc (nextMorph st')\<rparr>))))"

text \<open>
  \<^verbatim>\<open>createTypedArrays\<close> and \<^verbatim>\<open>createTypedMorph\<close> (lines 165 to 183): every array that
  is there becomes a \<^verbatim>\<open>Float32Array\<close> of the same elements (the rounding to single
  precision is not modelled).
\<close>

definition createTypedArrays :: "target_data \<Rightarrow> target_data" where
  "createTypedArrays data =
     \<lparr>positions = positions data, normals = normals data, uv = uv data, uv2 = uv2 data\<rparr>"

definition createTypedMorph :: "morph_data \<Rightarrow> morph_data" where
  "createTypedMorph data = \<lparr>d_keys = d_keys data, d_targets = map createTypedArrays (d_targets data)\<rparr>"

text \<open>
  \<^verbatim>\<open>createMorphGeometry\<close> (lines 149 to 163) for targets given inline. A missing or
  empty resource id is replaced by \<^verbatim>\<open>SceneJS._createKeyForMap(currentMorphs, "m")\<close>,
  which is not part of these sources: \<open>createKey\<close> is a parameter, applied to the current
  map of morphs; it returns a key and leaves the map as it is. The branch for a stream id
  hands the work to a loader service and a callback, and returns nothing.
\<close>

definition createMorphGeometry ::
  "((string \<times> morph option) list option \<Rightarrow> string) \<Rightarrow> string option \<Rightarrow> morph_data \<Rightarrow> state
     \<Rightarrow> (error + handle) \<times> state" where
  "createMorphGeometry createKey resource source st =
     createMorph
       (case resource of
          None \<Rightarrow> createKey (case currentMorphs st of None \<Rightarrow> None
                               | Some cid \<Rightarrow> map_of (canvasMorphs st) cid)
        | Some r \<Rightarrow> if r = [] then createKey (case currentMorphs st of None \<Rightarrow> None
                               | Some cid \<Rightarrow> map_of (canvasMorphs st) cid) else r)
       (createTypedMorph source) st"

subsection \<open>The stack\<close>

text \<open>
  \<^verbatim>\<open>pushMorphGeometry\<close> (lines 265 to 272): reading a property of a \<^verbatim>\<open>null\<close>
  \<^verbatim>\<open>currentMorphs\<close>, or writing \<^verbatim>\<open>factor\<close> of a morph that is undefined or
  \<^verbatim>\<open>null\<close>, is a TypeError. \<^verbatim>\<open>popMorphGeometry\<close> (lines 274 to 277).
\<close>

definition pushMorphGeometry :: "string \<Rightarrow> handle \<Rightarrow> real \<Rightarrow> state \<Rightarrow> (error + unit) \<times> state" where
  "pushMorphGeometry i h factor st =
     (case currentMorphs st of
        None \<Rightarrow> (Inl TypeError, st)
      | Some cid \<Rightarrow>
          (case entry st cid (h_resource h) of
             Some (Some m) \<Rightarrow>
               (Inr (),
                st\<lparr>factors := (factors st)(m_oid m := Some factor),
                   idStack := (idStack st)(stackLen st := Some i),
                   morphStack := (morphStack st)(stackLen st := Some m),
                   stackLen := stackLen st + 1,
                   dirty := True\<rparr>)
           | _ \<Rightarrow> (Inl TypeError, st)))"

definition popMorphGeometry :: "state \<Rightarrow> state" where
  "popMorphGeometry st = st\<lparr>stackLen := stackLen st - 1, dirty := True\<rparr>"

text \<open>A sequence of calls of the two stack functions, as a traversal makes them.\<close>

datatype stack_op = Push string handle real | Pop

fun runStack :: "stack_op list \<Rightarrow> state \<Rightarrow> (error + unit) \<times> state" where
  "runStack [] st = (Inr (), st)"
| "runStack (Push i h factor # ops) st =
     (case pushMorphGeometry i h factor st of
        (Inl e, st') \<Rightarrow> (Inl e, st')
      | (Inr u, st') \<Rightarrow> runStack ops st')"
| "runStack (Pop # ops) st = runStack ops (popMorphGeometry st)"

subsection \<open>The node type\<close>

text \<open>
  What \<^verbatim>\<open>_setMorph\<close> reads of its argument (the node parameters, or the result of the
  factory function), the parameters of the node, and the node: \<^verbatim>\<open>this._create\<close> (the
  factory function, given by the configuration it returns), \<^verbatim>\<open>this._stream\<close>,
  \<^verbatim>\<open>this.attr\<close>, \<^verbatim>\<open>this._handle\<close> and \<^verbatim>\<open>this._resource\<close>.
\<close>

record morph_config =
  c_targets :: "target_data list option"
  c_keys :: "real list option"

record node_params =
  np_create :: "morph_config option"
  np_stream :: "string option"
  np_config :: morph_config
  np_factor :: "real option"
  np_clamp :: "bool option"

record node =
  n_create :: "morph_config option"
  n_stream :: "string option"
  n_id :: string
  n_keys :: "real list option"
  n_targets :: "target_data list option"
  n_factor :: real
  n_clamp :: bool
  n_handle :: "handle option"
  n_resource :: "string option"

text \<open>
  The first loop of \<^verbatim>\<open>_setMorph\<close> (lines 316 to 330), for one of the four arrays: the
  first array that is given. The second loop (lines 332 to 346) gives it to the targets
  that have none.
\<close>

fun firstGiven :: "(target_data \<Rightarrow> real list option) \<Rightarrow> real list option \<Rightarrow> target_data list
    \<Rightarrow> real list option" where
  "firstGiven sel found [] = found"
| "firstGiven sel found (t # ts) =
     firstGiven sel (if found = None \<and> sel t \<noteq> None then sel t else found) ts"

definition orGiven :: "real list option \<Rightarrow> real list option \<Rightarrow> real list option" where
  "orGiven own given = (if own = None then given else own)"

definition fillTargets :: "target_data list \<Rightarrow> target_data list" where
  "fillTargets targets =
     map (\<lambda>t. \<lparr>positions = orGiven (positions t) (firstGiven positions None targets),
               normals = orGiven (normals t) (firstGiven normals None targets),
               uv = orGiven (uv t) (firstGiven uv None targets),
               uv2 = orGiven (uv2 t) (firstGiven uv2 None targets)\<rparr>) targets"

text \<open>
  \<^verbatim>\<open>_setMorph\<close> (lines 293 to 350): \<^verbatim>\<open>params.targets || []\<close>, \<^verbatim>\<open>params.keys || []\<close>,
  the two tests with their errors, the defaults, and the two assignments.
\<close>

definition theTargets :: "morph_config \<Rightarrow> target_data list" where
  "theTargets p = (case c_targets p of None \<Rightarrow> [] | Some ts \<Rightarrow> ts)"

definition theKeys :: "morph_config \<Rightarrow> real list" where
  "theKeys p = (case c_keys p of None \<Rightarrow> [] | Some ks \<Rightarrow> ks)"

definition setMorph :: "morph_config \<Rightarrow> node \<Rightarrow> error + node" where
  "setMorph p this =
     (if length (theTargets p) < 2 then Inl (ILLEGAL_NODE_CONFIG AtLeastTwoTargets)
      else if length (theKeys p) \<noteq> length (theTargets p)
      then Inl (ILLEGAL_NODE_CONFIG KeysTargetsMismatch)
      else Inr (this\<lparr>n_keys := Some (theKeys p),
                     n_targets := Some (fillTargets (theTargets p))\<rparr>))"

text \<open>
  \<^verbatim>\<open>_init\<close> (lines 281 to 291). \<^verbatim>\<open>params.stream\<close> is truthy when it is a string that
  is not empty.
\<close>

definition initMorph :: "node_params \<Rightarrow> node \<Rightarrow> error + node" where
  "initMorph params this =
     (case (if np_create params \<noteq> None then Inr (this\<lparr>n_create := np_create params\<rparr>)
            else if np_stream params \<noteq> None \<and> np_stream params \<noteq> Some []
            then Inr (this\<lparr>n_stream := np_stream params\<rparr>)
            else setMorph (np_config params) this) of
        Inl e \<Rightarrow> Inl e
      | Inr this' \<Rightarrow>
          Inr (this'\<lparr>n_factor := orDefault (np_factor params) 0,
                     n_clamp := (if np_clamp params = Some False then False else True)\<rparr>))"

text \<open>
  \<^verbatim>\<open>_preCompile\<close> (lines 384 to 415) for a node without a stream: the morph is created
  when there is no handle yet (after \<^verbatim>\<open>_setMorph\<close> on the result of the factory
  function, when there is one), and pushed when there is a handle. Reading
  \<^verbatim>\<open>data.targets.length\<close> of attributes without targets is a TypeError.
\<close>

definition createFromAttr ::
  "((string \<times> morph option) list option \<Rightarrow> string) \<Rightarrow> node \<Rightarrow> state
     \<Rightarrow> (error + unit) \<times> node \<times> state" where
  "createFromAttr createKey this st =
     (case n_targets this of
        None \<Rightarrow> (Inl TypeError, this, st)
      | Some ts \<Rightarrow>
          (case createMorphGeometry createKey (n_resource this)
                  \<lparr>d_keys = (case n_keys this of None \<Rightarrow> [] | Some ks \<Rightarrow> ks), d_targets = ts\<rparr> st of
             (Inl e, st') \<Rightarrow> (Inl e, this, st')
           | (Inr h, st') \<Rightarrow> (Inr (), this\<lparr>n_handle := Some h\<rparr>, st')))"

definition preCompile ::
  "((string \<times> morph option) list option \<Rightarrow> string) \<Rightarrow> node \<Rightarrow> state
     \<Rightarrow> (error + unit) \<times> node \<times> state" where
  "preCompile createKey this st =
     (case (if n_handle this = None then
              (case n_create this of
                 Some p \<Rightarrow>
                   (case setMorph p this of
                      Inl e \<Rightarrow> (Inl e, this, st)
                    | Inr this' \<Rightarrow> createFromAttr createKey this' st)
               | None \<Rightarrow> createFromAttr createKey this st)
            else (Inr (), this, st)) of
        (Inl e, this', st') \<Rightarrow> (Inl e, this', st')
      | (Inr u, this', st') \<Rightarrow>
          (case n_handle this' of
             None \<Rightarrow> (Inr (), this', st')
           | Some h \<Rightarrow>
               (case pushMorphGeometry (n_id this') h (n_factor this') st' of
                  (r, st'') \<Rightarrow> (r, this', st''))))"

subsection \<open>Notions used in the statements\<close>

text \<open>
  The buffers of a target and of a list of targets. The handles of the live buffers are
  handles that were given out (\<open>bufs_ok\<close>). \<open>grows st new st'\<close>: from \<open>st\<close> to \<open>st'\<close>
  the buffers \<open>new\<close> were allocated and nothing else changed. \<open>cached st h m\<close>: the handle
  \<open>h\<close> leads to the morph \<open>m\<close>, which is in the cache under its own canvas id and resource
  id, as \<^verbatim>\<open>_createMorph\<close> stores it.
\<close>

definition bufsOfTarget :: "target \<Rightarrow> nat set" where
  "bufsOfTarget t =
     set_option (vertexBuf t) \<union> set_option (normalBuf t) \<union> set_option (uvBuf t) \<union>
     set_option (uvBuf2 t)"

definition bufsOf :: "target list \<Rightarrow> nat set" where
  "bufsOf ts = (\<Union>t\<in>set ts. bufsOfTarget t)"

definition bufs_ok :: "state \<Rightarrow> bool" where
  "bufs_ok st = (\<forall>b\<in>liveBufs st. b < allocs st)"

definition grows :: "state \<Rightarrow> nat set \<Rightarrow> state \<Rightarrow> bool" where
  "grows st new st' =
     (st' = st\<lparr>liveBufs := liveBufs st \<union> new, allocs := allocs st'\<rparr> \<and>
      new \<subseteq> {allocs st..<allocs st'} \<and> allocs st \<le> allocs st')"

text \<open>
  The buffers that a call of \<^verbatim>\<open>_createMorph\<close> allocates when no allocation throws: one
  for every array that is there and not empty. The allocations of a call are attempts
  \<open>allocs st\<close>, \<open>allocs st + 1\<close>, ... of the allocator; \<open>throwsWithin st n\<close>: one of the
  next \<open>n\<close> attempts throws.
\<close>

definition needsBuffer :: "real list option \<Rightarrow> nat" where
  "needsBuffer arr = (case arr of None \<Rightarrow> 0 | Some xs \<Rightarrow> if length xs > 0 then 1 else 0)"

definition buffersOfData :: "target_data \<Rightarrow> nat" where
  "buffersOfData t =
     needsBuffer (positions t) + needsBuffer (normals t) + needsBuffer (uv t) + needsBuffer (uv2 t)"

definition buffersNeeded :: "morph_data \<Rightarrow> nat" where
  "buffersNeeded data = sum_list (map buffersOfData (d_targets data))"

definition throwsFrom :: "(nat \<Rightarrow> bool) \<Rightarrow> nat \<Rightarrow> nat \<Rightarrow> bool" where
  "throwsFrom fails a n = (\<exists>k<n. fails (a + k))"

definition throwsWithin :: "state \<Rightarrow> nat \<Rightarrow> bool" where
  "throwsWithin st n = throwsFrom (failing st) (allocs st) n"

definition cached :: "state \<Rightarrow> handle \<Rightarrow> morph \<Rightarrow> bool" where
  "cached st h m =
     (entry st (h_canvasId h) (h_resource h) = Some (Some m) \<and>
      canvasId (m_canvas m) = h_canvasId h \<and> m_resource m = h_resource h)"

subsection \<open>Example values\<close>

text \<open>
  A canvas \<^verbatim>\<open>c\<close>; a target with three positions, no normals and an empty \<^verbatim>\<open>uv\<close> array;
  data with three targets and the keys 0, 0.5, 1; data with two targets and the keys 0, 0.
  \<open>exBuiltins\<close>: what plain objects inherit in an engine of ECMAScript 5, in part: the
  functions of \<^verbatim>\<open>Object.prototype\<close> (\<open>exFunctions\<close>) and \<^verbatim>\<open>__proto__\<close>, which is
  \<^verbatim>\<open>Object.prototype\<close> itself; every function has those properties again, the
  properties of functions, and, for \<^verbatim>\<open>constructor\<close>, the functions of \<^verbatim>\<open>Object\<close>
  (\<open>exStatics\<close>).
  \<open>exCompiled\<close>: the module after the compile event for the canvas, the canvas element
  being in the document and no allocation failing. \<open>exCreated\<close>: after creating a morph
  from \<open>exData\<close> under the generated id \<^verbatim>\<open>m0\<close>. \<open>exFlat\<close>: after creating a morph from
  \<open>exFlatData\<close> and pushing it with factor 0. \<open>exShort\<close>: after the compile event when the
  third allocation fails.
\<close>

definition exCanvas :: canvas_obj where
  "exCanvas = \<lparr>canvasId = ''c''\<rparr>"

definition exTargetData :: target_data where
  "exTargetData = \<lparr>positions = Some [0, 0, 0], normals = None, uv = Some [], uv2 = None\<rparr>"

definition exData :: morph_data where
  "exData = \<lparr>d_keys = [0, 1 / 2, 1], d_targets = [exTargetData, exTargetData, exTargetData]\<rparr>"

definition exFlatData :: morph_data where
  "exFlatData = \<lparr>d_keys = [0, 0], d_targets = [exTargetData, exTargetData]\<rparr>"

definition exHandle :: handle where
  "exHandle = \<lparr>h_canvasId = ''c'', h_resource = ''m0''\<rparr>"

definition exFunctions :: "string list" where
  "exFunctions = [''constructor'', ''toString'', ''toLocaleString'', ''valueOf'',
     ''hasOwnProperty'', ''isPrototypeOf'', ''propertyIsEnumerable'',
     ''__defineGetter__'', ''__defineSetter__'', ''__lookupGetter__'', ''__lookupSetter__'']"

definition exStatics :: "string list" where
  "exStatics = [''prototype'', ''getPrototypeOf'', ''getOwnPropertyDescriptor'',
     ''getOwnPropertyNames'', ''create'', ''defineProperty'', ''defineProperties'', ''seal'',
     ''freeze'', ''preventExtensions'', ''isSealed'', ''isFrozen'', ''isExtensible'', ''keys'']"

definition exBuiltins :: builtins where
  "exBuiltins =
     \<lparr>ofPrototype =
        (\<lambda>k. if k \<in> set exFunctions \<or> k = ''__proto__'' then TruthyValue else NoProperty),
      ofValue =
        (\<lambda>k r.
           if k = ''__proto__'' then
             (if r \<in> set exFunctions then TruthyValue
              else if r = ''__proto__'' then FalsyValue else NoProperty)
           else if r \<in> set exFunctions \<or>
                   r \<in> set [''call'', ''apply'', ''bind'', ''name'', ''__proto__'']
           then TruthyValue
           else if r = ''length'' then
             (if k \<in> set [''toString'', ''toLocaleString'', ''valueOf'']
              then FalsyValue else TruthyValue)
           else if k = ''constructor'' \<and> r \<in> set exStatics then TruthyValue
           else NoProperty)\<rparr>"

definition exCompiled :: state where
  "exCompiled = onSceneCompiling exCanvas (initState {''c''} (\<lambda>n. False) exBuiltins)"

definition exCreated :: state where
  "exCreated = snd (createMorphGeometry (\<lambda>m. ''m0'') None exData exCompiled)"

definition exFlat :: state where
  "exFlat = snd (pushMorphGeometry ''n1'' exHandle 0
     (snd (createMorphGeometry (\<lambda>m. ''m0'') None exFlatData exCompiled)))"

definition exShort :: state where
  "exShort = onSceneCompiling exCanvas (initState {''c''} (\<lambda>n. n = 2) exBuiltins)"

text \<open>
  The morph of \<open>exCreated\<close>; \<open>exGone\<close>: the canvas element has left the document after the
  morph was created. A node as the base class leaves it, and three configurations: one
  target, two targets with three keys, two targets with two keys.
\<close>

definition exMorph :: morph where
  "exMorph = \<lparr>m_oid = 0, m_canvas = exCanvas, m_resource = ''m0'', m_keys = [0, 1 / 2, 1],
     m_targets = [\<lparr>vertexBuf = Some 0, normalBuf = None, uvBuf = None, uvBuf2 = None\<rparr>,
       \<lparr>vertexBuf = Some 1, normalBuf = None, uvBuf = None, uvBuf2 = None\<rparr>,
       \<lparr>vertexBuf = Some 2, normalBuf = None, uvBuf = None, uvBuf2 = None\<rparr>]\<rparr>"

definition exGone :: state where
  "exGone = exCreated\<lparr>document := {}\<rparr>"

definition exThisNode :: node where
  "exThisNode = \<lparr>n_create = None, n_stream = None, n_id = ''n1'', n_keys = None,
     n_targets = None, n_factor = 0, n_clamp = True, n_handle = None, n_resource = None\<rparr>"

definition exOneTarget :: morph_config where
  "exOneTarget = \<lparr>c_targets = Some [exTargetData], c_keys = Some [0]\<rparr>"

definition exMismatch :: morph_config where
  "exMismatch = \<lparr>c_targets = Some [exTargetData, exTargetData], c_keys = Some [0, 1, 2]\<rparr>"

definition exValid :: morph_config where
  "exValid = \<lparr>c_targets = Some [exTargetData, exTargetData], c_keys = Some [0, 1]\<rparr>"

section \<open>The event module: order of the calls\<close>

subsection \<open>Inserting a handler\<close>

lemma set_insertHandler: "set (insertHandler xs h) = insert h (set xs)"
  by (induction xs) auto

lemma insertHandler_sorted:
  "sorted (map priority xs) \<Longrightarrow> sorted (map priority (insertHandler xs h))"
  by (induction xs) (auto simp: set_insertHandler)

lemma filter_above:
  "\<forall>x\<in>set xs. q < priority x \<Longrightarrow> filter (\<lambda>x. priority x = q) xs = []"
  by (induction xs) auto

lemma insertHandler_filter:
  "sorted (map priority xs) \<Longrightarrow>
   filter (\<lambda>x. priority x = p) (insertHandler xs h) =
   filter (\<lambda>x. priority x = p) xs @ (if priority h = p then [h] else [])"
proof (induction xs)
  case Nil
  then show ?case by simp
next
  case (Cons a xs)
  show ?case
  proof (cases "priority h < priority a")
    case True
    with Cons.prems have "\<forall>x\<in>set (a # xs). priority h < priority x" by auto
    then have "filter (\<lambda>x. priority x = priority h) (a # xs) = []" by (rule filter_above)
    with True show ?thesis by auto
  next
    case False
    with Cons show ?thesis by simp
  qed
qed

lemma listOf_addListener_same:
  "listOf (addListener type c p ev) type =
   insertHandler (listOf ev type) (newHandler (listOf ev type) c p)"
  by (simp add: addListener_def listOf_def)

lemma addListener_other: "t \<noteq> type \<Longrightarrow> addListener t c p ev type = ev type"
  by (simp add: addListener_def)

lemma runCommand_other:
  "\<forall>r\<in>set rs. fst r \<noteq> type \<Longrightarrow> runCommand rs ev type = ev type"
  by (induction rs ev rule: runCommand.induct) (auto simp: addListener_other)

subsection \<open>The dispatch loop\<close>

lemma runCommand_quiet: "quiet body type c \<Longrightarrow> runCommand (body c) ev type = ev type"
  by (simp add: quiet_def runCommand_other list_all_iff)

lemma dispatch_end:
  "length (listOf ev type) \<le> i \<Longrightarrow> dispatch body type i ev called = Some (ev, called)"
  by (subst dispatch.simps) simp

lemma dispatch_step:
  "i < length (listOf ev type) \<Longrightarrow>
   dispatch body type i ev called =
   dispatch body type (Suc i) (runCommand (body (command (listOf ev type ! i))) ev)
     (called @ [listOf ev type ! i])"
  by (subst dispatch.simps) simp

lemma dispatch_quiet_upto:
  assumes "k \<le> i" "i \<le> length (listOf ev type)"
    and "\<forall>j. k \<le> j \<and> j < i \<longrightarrow> quiet body type (command (listOf ev type ! j))"
  shows "\<exists>ev'. ev' type = ev type \<and>
           dispatch body type k ev called =
           dispatch body type i ev' (called @ take (i - k) (drop k (listOf ev type)))"
  using assms
proof (induction "i - k" arbitrary: k ev called)
  case 0
  then show ?case by auto
next
  case (Suc n)
  let ?l = "listOf ev type"
  let ?ev = "runCommand (body (command (?l ! k))) ev"
  from Suc.hyps(2) Suc.prems have k: "k < i" "k < length ?l" by simp_all
  with Suc.prems have same: "?ev type = ev type" by (simp add: runCommand_quiet)
  then have l: "listOf ?ev type = ?l" by (simp add: listOf_def)
  have "n = i - Suc k" using Suc.hyps(2) by simp
  moreover have "Suc k \<le> i" using k by simp
  moreover have "i \<le> length (listOf ?ev type)" using Suc.prems l by simp
  moreover have "\<forall>j. Suc k \<le> j \<and> j < i \<longrightarrow> quiet body type (command (listOf ?ev type ! j))"
    using Suc.prems l by simp
  ultimately obtain ev' where ev': "ev' type = ?ev type"
    "dispatch body type (Suc k) ?ev (called @ [?l ! k]) =
     dispatch body type i ev' ((called @ [?l ! k]) @ take (i - Suc k) (drop (Suc k) (listOf ?ev type)))"
    using Suc.hyps(1) by blast
  have "take (i - k) (drop k ?l) = ?l ! k # take (i - Suc k) (drop (Suc k) ?l)"
    using k by (metis Cons_nth_drop_Suc Suc_diff_Suc take_Suc_Cons)
  with ev' same l k show ?case by (auto simp: dispatch_step)
qed

lemma fireEvent_dispatch: "fireEvent body type ev = dispatch body type 0 ev []"
  by (simp add: fireEvent_def listOf_def dispatch_end split: option.splits)

lemma fireEvent_quiet:
  assumes "\<forall>h\<in>set (listOf ev type). quiet body type (command h)"
  shows "\<exists>ev'. ev' type = ev type \<and> fireEvent body type ev = Some (ev', listOf ev type)"
proof -
  let ?l = "listOf ev type"
  have "\<forall>j. 0 \<le> j \<and> j < length ?l \<longrightarrow> quiet body type (command (?l ! j))"
    using assms by simp
  then obtain ev' where ev': "ev' type = ev type"
    "dispatch body type 0 ev [] = dispatch body type (length ?l) ev' ([] @ take (length ?l - 0) (drop 0 ?l))"
    using dispatch_quiet_upto [of 0 "length ?l" ev type body "[]"] by blast
  then have "listOf ev' type = ?l" by (simp add: listOf_def)
  with ev' show ?thesis by (auto simp: fireEvent_dispatch dispatch_end)
qed

lemma insertHandler_append:
  "\<forall>x\<in>set xs. priority x \<le> priority h \<Longrightarrow> insertHandler xs h = xs @ [h]"
  by (induction xs) auto

lemma fireEvent_appended:
  assumes i: "i < length (listOf ev type)"
    and reg: "body (command (listOf ev type ! i)) = [(type, c, p)]"
    and others: "\<forall>j < length (listOf ev type). j \<noteq> i \<longrightarrow> quiet body type (command (listOf ev type ! j))"
    and c: "quiet body type c"
    and last: "\<forall>x\<in>set (listOf ev type). priority x \<le> priority (newHandler (listOf ev type) c p)"
  shows "\<exists>ev'. fireEvent body type ev =
           Some (ev', listOf ev type @ [newHandler (listOf ev type) c p])"
proof -
  let ?l = "listOf ev type"
  let ?h = "newHandler ?l c p"
  obtain ev1 where ev1: "ev1 type = ev type"
    "dispatch body type 0 ev [] = dispatch body type i ev1 ([] @ take (i - 0) (drop 0 ?l))"
    using dispatch_quiet_upto [of 0 i ev type body "[]"] i others by auto
  then have l1: "listOf ev1 type = ?l" by (simp add: listOf_def)
  let ?ev2 = "runCommand (body (command (?l ! i))) ev1"
  have l2: "listOf ?ev2 type = ?l @ [?h]"
    using reg l1 last by (simp add: listOf_addListener_same insertHandler_append)
  have step: "dispatch body type i ev1 (take i ?l) =
      dispatch body type (Suc i) ?ev2 (take i ?l @ [?l ! i])"
    using i l1 by (simp add: dispatch_step)
  have "\<forall>j. Suc i \<le> j \<and> j < length (?l @ [?h]) \<longrightarrow> quiet body type (command (listOf ?ev2 type ! j))"
    using others c l2 by (auto simp: nth_append newHandler_def)
  then obtain ev3 where ev3: "ev3 type = ?ev2 type"
    "dispatch body type (Suc i) ?ev2 (take i ?l @ [?l ! i]) =
     dispatch body type (length (?l @ [?h])) ev3
       ((take i ?l @ [?l ! i]) @ take (length (?l @ [?h]) - Suc i) (drop (Suc i) (listOf ?ev2 type)))"
    using dispatch_quiet_upto [of "Suc i" "length (?l @ [?h])" ?ev2 type body "take i ?l @ [?l ! i]"] i l2
    by auto
  then have l3: "listOf ev3 type = ?l @ [?h]" using l2 by (simp add: listOf_def)
  have "(take i ?l @ [?l ! i]) @ drop (Suc i) (?l @ [?h]) = ?l @ [?h]"
    using i by (simp add: take_Suc_conv_app_nth [symmetric])
  with ev1 step ev3 l2 l3 show ?thesis
    by (auto simp: fireEvent_dispatch dispatch_end)
qed

subsection \<open>Sequences of registrations\<close>

lemma addListeners_sorted:
  "sorted (map priority (listOf ev type)) \<Longrightarrow>
   sorted (map priority (listOf (addListeners type regs ev) type))"
  by (induction regs arbitrary: ev)
     (auto simp: listOf_addListener_same insertHandler_sorted)

lemma addListeners_filter:
  "sorted (map priority (listOf ev type)) \<Longrightarrow>
   filter (\<lambda>h. priority h = q) (listOf (addListeners type regs ev) type) =
   filter (\<lambda>h. priority h = q) (listOf ev type) @
   filter (\<lambda>h. priority h = q) (registered type regs ev)"
proof (induction regs arbitrary: ev)
  case Nil
  then show ?case by simp
next
  case (Cons r regs)
  obtain c p where r: "r = (c, p)" by (cases r)
  let ?ev = "addListener type c p ev"
  have s: "sorted (map priority (listOf ?ev type))"
    using Cons.prems by (simp add: listOf_addListener_same insertHandler_sorted)
  show ?case
    using Cons.IH [OF s] Cons.prems
    by (simp add: r listOf_addListener_same insertHandler_filter)
qed

lemma addListeners_commands:
  "command ` set (listOf (addListeners type regs ev) type) =
   command ` set (listOf ev type) \<union> fst ` set regs"
proof (induction regs arbitrary: ev)
  case Nil
  then show ?case by simp
next
  case (Cons r regs)
  obtain c p where r: "r = (c, p)" by (cases r)
  have "command ` set (listOf (addListener type c p ev) type) =
      insert c (command ` set (listOf ev type))"
    by (simp add: listOf_addListener_same set_insertHandler newHandler_def)
  with Cons.IH [of "addListener type c p ev"] show ?case
    by (auto simp: r)
qed

lemma listOf_noEvents: "listOf noEvents type = []"
  by (simp add: listOf_def noEvents_def)


text \<open>
  Claim C3. After any sequence of \<^verbatim>\<open>addListener\<close> calls on one event kind, made on the
  empty event table, \<^verbatim>\<open>fireEvent\<close> returns and calls exactly the handlers on the list,
  in list order; the priorities along the calls never decrease, and for every priority the
  handlers of that priority are called in the order of their registration (the default
  priority being the length of the list at registration time). The commands are those
  registered, and none of them registers a listener for the kind during the dispatch.
\<close>

theorem fireEvent_priority_order:
  assumes "\<forall>c\<in>fst ` set regs. quiet body type c"
  shows "\<exists>ev'.
           fireEvent body type (addListeners type regs noEvents) =
             Some (ev', listOf (addListeners type regs noEvents) type) \<and>
           sorted (map priority (listOf (addListeners type regs noEvents) type)) \<and>
           (\<forall>q. filter (\<lambda>h. priority h = q) (listOf (addListeners type regs noEvents) type) =
                filter (\<lambda>h. priority h = q) (registered type regs noEvents)) \<and>
           map command (registered type regs noEvents) = map fst regs"
proof -
  let ?ev = "addListeners type regs noEvents"
  have "\<forall>h\<in>set (listOf ?ev type). quiet body type (command h)"
  proof
    fix h assume "h \<in> set (listOf ?ev type)"
    then have "command h \<in> command ` set (listOf ?ev type)" by (rule imageI)
    then have "command h \<in> fst ` set regs"
      by (simp add: addListeners_commands listOf_noEvents)
    with assms show "quiet body type (command h)" by blast
  qed
  then obtain ev' where "fireEvent body type ?ev = Some (ev', listOf ?ev type)"
    using fireEvent_quiet by blast
  moreover have "sorted (map priority (listOf ?ev type))"
    by (rule addListeners_sorted) (simp add: listOf_noEvents)
  moreover have "\<forall>q. filter (\<lambda>h. priority h = q) (listOf ?ev type) =
      filter (\<lambda>h. priority h = q) (registered type regs noEvents)"
    using addListeners_filter [of noEvents type _ regs] by (simp add: listOf_noEvents)
  moreover have "map command (registered type regs ev) = map fst regs" for ev
    by (induction regs arbitrary: ev) (auto simp: newHandler_def)
  ultimately show ?thesis by blast
qed

theorem fireEvent_priority_order_witness:
  "\<exists>ev'. fireEvent (\<lambda>c. []) 29
           (addListeners 29 [(1, None), (2, Some 0), (3, None), (4, Some 0), (5, Some (- 3))]
              noEvents) =
         Some (ev',
           [\<lparr>command = 5, priority = - 3\<rparr>, \<lparr>command = 1, priority = 0\<rparr>,
            \<lparr>command = 2, priority = 0\<rparr>, \<lparr>command = 4, priority = 0\<rparr>,
            \<lparr>command = 3, priority = 2\<rparr>])"
proof -
  let ?regs = "[(1, None), (2, Some 0), (3, None), (4, Some 0), (5, Some (- 3))]"
  have l: "listOf (addListeners 29 ?regs noEvents) 29 =
      [\<lparr>command = 5, priority = - 3\<rparr>, \<lparr>command = 1, priority = 0\<rparr>,
       \<lparr>command = 2, priority = 0\<rparr>, \<lparr>command = 4, priority = 0\<rparr>,
       \<lparr>command = 3, priority = 2\<rparr>]"
    by (simp add: addListener_def listOf_def noEvents_def newHandler_def)
  have q: "\<forall>c\<in>fst ` set ?regs. quiet (\<lambda>c. []) 29 c"
    by (simp add: quiet_def)
  from fireEvent_priority_order [OF q] show ?thesis
    unfolding l by blast
qed




section \<open>The camera node: memo level and copies\<close>

lemma setOptics_memo:
  "setOptics optics cam s = Inr (cam', s') \<Longrightarrow>
   compileMemoLevel cam' = 0 \<and> mathCalls s' = mathCalls s \<and> transform cam' = transform cam"
  by (auto simp: setOptics_def resetCompilationMemos_def split: sum.splits)

lemma getMatrix_invalid:
  "compileMemoLevel cam = 0 \<Longrightarrow>
   \<exists>a cam' s'. getMatrix M cam s = Inr (a, cam', s') \<and> mathCalls s' = Suc (mathCalls s) \<and>
     compileMemoLevel cam' = 1 \<and>
     arrays s' a = matrixOf M (objs s (attr_optics cam))"
  by (simp add: getMatrix_def rebuild_def sliceMatrix_def)

lemma getMatrix_valid:
  "compileMemoLevel cam \<noteq> 0 \<Longrightarrow> getMatrix M cam s = Inr (a, cam', s') \<Longrightarrow>
   cam' = cam \<and> mathCalls s' = mathCalls s \<and> transform cam \<noteq> None \<and>
   arrays s' a = arrays s (matrix (the (transform cam)))"
  by (auto simp: getMatrix_def sliceMatrix_def split: option.splits)

lemma getMatrix_again:
  "getMatrix M cam s = Inr (a, cam', s') \<Longrightarrow>
   \<exists>a2 s2. getMatrix M cam' s' = Inr (a2, cam', s2) \<and> mathCalls s2 = mathCalls s' \<and>
     arrays s2 a2 = arrays s' a \<and> compileMemoLevel cam' \<noteq> 0"
  by (auto simp: getMatrix_def rebuild_def sliceMatrix_def split: option.splits if_splits)

lemma refs_ok_getOptics:
  "refs_ok cam s \<Longrightarrow> getOptics cam s = (a, s') \<Longrightarrow>
   a \<noteq> attr_optics cam \<and> objs s' a = objs s (attr_optics cam) \<and>
   objs s' (attr_optics cam) = objs s (attr_optics cam) \<and>
   arrays s' = arrays s \<and> mathCalls s' = mathCalls s"
  by (auto simp: refs_ok_def getOptics_def)

lemma refs_ok_getMatrix:
  "refs_ok cam s \<Longrightarrow> getMatrix M cam s = Inr (a, cam', s') \<Longrightarrow>
   (\<exists>t. transform cam' = Some t \<and> a \<noteq> matrix t \<and> arrays s' a = arrays s' (matrix t) \<and>
      (\<forall>v. arrays (s'\<lparr>arrays := (arrays s')(a := v)\<rparr>) (matrix t) = arrays s' (matrix t))) \<and>
   objs s' = objs s \<and> attr_optics cam' = attr_optics cam"
  by (auto simp: refs_ok_def getMatrix_def rebuild_def sliceMatrix_def split: option.splits if_splits)






section \<open>The morph geometry module: rendering\<close>

lemmas morph_defs =
  exCanvas_def exTargetData_def exData_def exFlatData_def exHandle_def exCompiled_def
  exCreated_def exFlat_def exShort_def
  onSceneCompiling_def initState_def createMorphGeometry_def createMorph_def
  createTypedMorph_def createTypedArrays_def createTarget_def allocIf_def newArrayBuffer_def
  putMorph_def pushMorphGeometry_def entry_def onSceneRendering_def findTargetFrame_def
  normalise_def elemAt_def atOpt_def le_js_def ge_js_def gt_js_def popMorphGeometry_def
  destroyMorphGeometry_def destroyMorph_def destroyTarget_def destroyIf_def destroyBuffer_def

lemma scanFrom_Some:
  "scanFrom f keys n = Some i \<Longrightarrow>
   i < n \<and> gt_js f (elemAt keys (int i)) \<and>
   (\<forall>j. i < j \<and> j < n \<longrightarrow> \<not> gt_js f (elemAt keys (int j)))"
proof (induction n)
  case 0
  then show ?case by simp
next
  case (Suc n)
  show ?case
  proof (cases "gt_js f (elemAt keys (int n))")
    case True
    with Suc.prems show ?thesis by auto
  next
    case False
    with Suc.prems have "scanFrom f keys n = Some i" by simp
    from Suc.IH [OF this] False show ?thesis
      by (auto simp: less_Suc_eq)
  qed
qed

lemma scanFrom_None:
  "scanFrom f keys n = None \<Longrightarrow> \<forall>j<n. \<not> gt_js f (elemAt keys (int j))"
  by (induction n) (auto simp: less_Suc_eq split: if_splits)

lemma elemAt_nth: "i < length xs \<Longrightarrow> elemAt xs (int i) = Some (xs ! i)"
  by (simp add: elemAt_def)

lemma elemAt_0: "xs \<noteq> [] \<Longrightarrow> elemAt xs 0 = Some (xs ! 0)"
  by (simp add: elemAt_def)

lemma elemAt_last:
  "xs \<noteq> [] \<Longrightarrow> elemAt xs (int (length xs) - 1) = Some (xs ! (length xs - 1))"
proof -
  assume l: "xs \<noteq> []"
  then have "nat (int (length xs) - 1) = length xs - 1" by simp
  with l show ?thesis by (simp add: elemAt_def)
qed

lemma findTargetFrame_first:
  assumes "2 \<le> length K" "f \<le> K ! 0"
  shows "findTargetFrame (Some f) K n = (Some (K ! 0), Some 0, Some 1)"
proof -
  from assms have "K \<noteq> []" by auto
  with assms show ?thesis by (simp add: findTargetFrame_def le_js_def elemAt_0)
qed

lemma findTargetFrame_last:
  assumes "2 \<le> length K" "\<not> f \<le> K ! 0" "K ! (length K - 1) \<le> f"
  shows "findTargetFrame (Some f) K n =
    (Some (K ! (length K - 1)), Some (int (length K) - 2), Some (int (length K) - 1))"
proof -
  from assms have "K \<noteq> []" by auto
  with assms show ?thesis
    by (simp add: findTargetFrame_def le_js_def ge_js_def elemAt_0 elemAt_last)
qed

lemma findTargetFrame_interior:
  assumes len: "2 \<le> length K" and lo: "\<not> f \<le> K ! 0" and hi: "\<not> K ! (length K - 1) \<le> f"
  shows "\<exists>i. findTargetFrame (Some f) K (length K) = (Some f, Some (int i), Some (int i + 1)) \<and>
           i + 1 < length K \<and> K ! i < f \<and> f \<le> K ! (i + 1) \<and>
           (\<forall>j. i < j \<and> j < length K \<longrightarrow> \<not> K ! j < f) \<and>
           (\<exists>x. normalise (Some f) (elemAt K (int i)) (elemAt K (int i + 1)) = Num x \<and>
                0 < x \<and> x \<le> 1)"
proof -
  from len have ne: "K \<noteq> []" by auto
  have gt0: "gt_js (Some f) (elemAt K (int 0))"
    using ne lo by (simp add: gt_js_def elemAt_0)
  obtain i where i: "scanFrom (Some f) K (length K) = Some i"
  proof (cases "scanFrom (Some f) K (length K)")
    case None
    from ne have "0 < length K" by simp
    with scanFrom_None [OF None] have "\<not> gt_js (Some f) (elemAt K (int 0))" by blast
    with gt0 show ?thesis by simp
  next
    case (Some i)
    then show ?thesis by (rule that)
  qed
  from scanFrom_Some [OF i] have ilt: "i < length K"
    and gi: "gt_js (Some f) (elemAt K (int i))"
    and above: "\<forall>j. i < j \<and> j < length K \<longrightarrow> \<not> gt_js (Some f) (elemAt K (int j))"
    by auto
  from gi ilt have ki: "K ! i < f" by (simp add: gt_js_def elemAt_nth)
  have "i \<noteq> length K - 1" using ki hi by auto
  with ilt have i1: "i + 1 < length K" by simp
  from above have ab: "\<forall>j. i < j \<and> j < length K \<longrightarrow> \<not> K ! j < f"
    by (auto simp: gt_js_def elemAt_nth)
  with i1 have ki1: "f \<le> K ! (i + 1)" by auto
  have e1: "elemAt K (int i) = Some (K ! i)" using ilt by (rule elemAt_nth)
  have "elemAt K (int (i + 1)) = Some (K ! (i + 1))" using i1 by (rule elemAt_nth)
  then have e2: "elemAt K (int i + 1) = Some (K ! (i + 1))" by (simp add: add.commute)
  have d: "0 < K ! (i + 1) - K ! i" using ki ki1 by simp
  have nm: "normalise (Some f) (elemAt K (int i)) (elemAt K (int i + 1)) =
      Num ((f - K ! i) / (K ! (i + 1) - K ! i))"
    using d by (simp add: normalise_def e1 e2)
  have "0 < (f - K ! i) / (K ! (i + 1) - K ! i)" using ki d by simp
  moreover have "(f - K ! i) / (K ! (i + 1) - K ! i) \<le> 1" using ki1 d by simp
  moreover have "findTargetFrame (Some f) K (length K) = (Some f, Some (int i), Some (int i + 1))"
    using ne lo hi i by (simp add: findTargetFrame_def le_js_def ge_js_def elemAt_0 elemAt_last)
  ultimately show ?thesis using i1 ki ki1 ab nm by blast
qed

lemma normalise_boundary:
  "normalise (Some a) (Some a) (Some b) = (if b = a then NaN else Num 0)"
  "normalise (Some b) (Some a) (Some b) = (if b = a then NaN else Num 1)"
  by (simp_all add: normalise_def)


text \<open>
  The three cases together, for a morph with as many targets as keys: the pair that is
  selected, and the normalised factor where the two keys of the pair differ.
\<close>

lemma findTargetFrame_brackets:
  assumes "2 \<le> length K"
  shows "(f \<le> K ! 0 \<longrightarrow>
           findTargetFrame (Some f) K (length K) = (Some (K ! 0), Some 0, Some 1) \<and>
           (K ! 0 \<noteq> K ! 1 \<longrightarrow> normalise (Some (K ! 0)) (elemAt K 0) (elemAt K 1) = Num 0)) \<and>
         (\<not> f \<le> K ! 0 \<and> K ! (length K - 1) \<le> f \<longrightarrow>
           findTargetFrame (Some f) K (length K) =
             (Some (K ! (length K - 1)), Some (int (length K) - 2), Some (int (length K) - 1)) \<and>
           (K ! (length K - 2) \<noteq> K ! (length K - 1) \<longrightarrow>
              normalise (Some (K ! (length K - 1))) (elemAt K (int (length K) - 2))
                (elemAt K (int (length K) - 1)) = Num 1)) \<and>
         (\<not> f \<le> K ! 0 \<and> \<not> K ! (length K - 1) \<le> f \<longrightarrow>
           (\<exists>i. findTargetFrame (Some f) K (length K) = (Some f, Some (int i), Some (int i + 1)) \<and>
              i + 1 < length K \<and> K ! i < f \<and> f \<le> K ! (i + 1) \<and>
              (\<forall>j. i < j \<and> j < length K \<longrightarrow> \<not> K ! j < f) \<and>
              (\<exists>x. normalise (Some f) (elemAt K (int i)) (elemAt K (int i + 1)) = Num x \<and>
                   0 < x \<and> x \<le> 1)))"
proof -
  from assms have ne: "K \<noteq> []" by auto
  have e1: "elemAt K 1 = Some (K ! 1)" using assms by (simp add: elemAt_def)
  have "nat (int (length K) - 2) = length K - 2" by simp
  then have e2: "elemAt K (int (length K) - 2) = Some (K ! (length K - 2))"
    using assms by (simp add: elemAt_def)
  show ?thesis
    using findTargetFrame_first [OF assms, of f "length K"]
      findTargetFrame_last [OF assms, of f "length K"]
      findTargetFrame_interior [OF assms, of f]
    by (simp add: elemAt_0 [OF ne] elemAt_last [OF ne] e1 e2 normalise_boundary)
qed

text \<open>
  Claim C1, at the input where the code departs from it. The keys 0, 0 with two targets
  are a non-decreasing key sequence of length two. With the factor 0 the listener takes
  the first branch, selects the pair (0, 1) and computes \<^verbatim>\<open>(0 - 0) / (0 - 0)\<close>: the
  factor handed to the render module is \<^verbatim>\<open>NaN\<close>, which is not in the range from 0 to 1.
\<close>

theorem render_equal_keys_NaN:
  "fst (onSceneRendering exFlat) = Inr () \<and>
   setMorphCalls (snd (onSceneRendering exFlat)) =
     [SetMorph (Some ''n1'') NaN
        (Some \<lparr>vertexBuf = Some 0, normalBuf = None, uvBuf = None, uvBuf2 = None\<rparr>)
        (Some \<lparr>vertexBuf = Some 1, normalBuf = None, uvBuf = None, uvBuf2 = None\<rparr>)]"
  by (simp add: morph_defs)

section \<open>The morph geometry module: creating and destroying\<close>

lemma destroyIf_eq: "destroyIf b st = st\<lparr>liveBufs := liveBufs st - set_option b\<rparr>"
  by (cases b) (simp_all add: destroyIf_def destroyBuffer_def)

lemma destroyTarget_eq: "destroyTarget t st = st\<lparr>liveBufs := liveBufs st - bufsOfTarget t\<rparr>"
  by (simp add: destroyTarget_def destroyIf_eq bufsOfTarget_def Diff_eq Int_assoc Int_ac)

lemma destroyTargets_eq: "destroyTargets ts st = st\<lparr>liveBufs := liveBufs st - bufsOf ts\<rparr>"
proof (induction ts arbitrary: st)
  case Nil
  then show ?case by (simp add: bufsOf_def)
next
  case (Cons t ts)
  have "liveBufs st - bufsOfTarget t - bufsOf ts = liveBufs st - bufsOf (t # ts)"
    by (auto simp: bufsOf_def)
  then show ?case by (simp add: Cons.IH destroyTarget_eq)
qed

lemma allocIf_eq:
  assumes "allocIf arr st = (r, st')"
  shows "st' = st\<lparr>liveBufs := liveBufs st \<union> (case r of Inl e \<Rightarrow> {} | Inr b \<Rightarrow> set_option b),
                  allocs := allocs st'\<rparr> \<and>
         (case r of Inl e \<Rightarrow> {} | Inr b \<Rightarrow> set_option b) \<subseteq> {allocs st..<allocs st'} \<and>
         allocs st \<le> allocs st'"
  using assms
  by (auto simp: allocIf_def newArrayBuffer_def split: option.splits if_splits)
lemma grows_refl: "grows st {} st"
  by (simp add: grows_def)

lemma grows_trans:
  assumes "grows st a st1" "grows st1 b st2"
  shows "grows st (a \<union> b) st2"
proof -
  from assms have 1: "st1 = st\<lparr>liveBufs := liveBufs st \<union> a, allocs := allocs st1\<rparr>"
    and 2: "st2 = st1\<lparr>liveBufs := liveBufs st1 \<union> b, allocs := allocs st2\<rparr>"
    and a: "a \<subseteq> {allocs st..<allocs st1}" and b: "b \<subseteq> {allocs st1..<allocs st2}"
    and le: "allocs st \<le> allocs st1" "allocs st1 \<le> allocs st2"
    by (simp_all add: grows_def)
  have l1: "liveBufs st1 = liveBufs st \<union> a"
    using arg_cong [where f = liveBufs, OF 1] by simp
  have "st2 = st\<lparr>liveBufs := liveBufs st \<union> (a \<union> b), allocs := allocs st2\<rparr>"
    by (subst 2, subst 1) (simp add: l1 Un_assoc)
  moreover have "a \<union> b \<subseteq> {allocs st..<allocs st2}" using a b le by auto
  ultimately show ?thesis using le by (simp add: grows_def)
qed

lemma allocIf_grows:
  "allocIf arr st = (r, st') \<Longrightarrow>
   grows st (case r of Inl e \<Rightarrow> {} | Inr b \<Rightarrow> set_option b) st'"
  using allocIf_eq [of arr st r st'] by (simp add: grows_def)

lemma createTarget_grows:
  assumes "createTarget t st = (err, newTarget, st')"
  shows "grows st (bufsOfTarget newTarget) st'"
proof -
  obtain r1 st1 where 1: "allocIf (positions t) st = (r1, st1)" by (cases "allocIf (positions t) st")
  obtain r2 st2 where 2: "allocIf (normals t) st1 = (r2, st2)" by (cases "allocIf (normals t) st1")
  obtain r3 st3 where 3: "allocIf (uv t) st2 = (r3, st3)" by (cases "allocIf (uv t) st2")
  obtain r4 st4 where 4: "allocIf (uv2 t) st3 = (r4, st4)" by (cases "allocIf (uv2 t) st3")
  note g1 = allocIf_grows [OF 1]
  note g2 = grows_trans [OF g1 allocIf_grows [OF 2]]
  note g3 = grows_trans [OF g2 allocIf_grows [OF 3]]
  note g4 = grows_trans [OF g3 allocIf_grows [OF 4]]
  show ?thesis
  proof (cases r1)
    case (Inl e)
    with assms 1 g1 show ?thesis by (auto simp: createTarget_def bufsOfTarget_def)
  next
    case a: (Inr v)
    show ?thesis
    proof (cases r2)
      case (Inl e)
      with assms 1 2 a g2 show ?thesis by (auto simp: createTarget_def bufsOfTarget_def)
    next
      case b: (Inr n)
      show ?thesis
      proof (cases r3)
        case (Inl e)
        with assms 1 2 3 a b g3 show ?thesis by (auto simp: createTarget_def bufsOfTarget_def)
      next
        case c: (Inr u)
        show ?thesis
        proof (cases r4)
          case (Inl e)
          with assms 1 2 3 4 a b c g4 show ?thesis
            by (auto simp: createTarget_def bufsOfTarget_def)
        next
          case (Inr u2)
          with assms 1 2 3 4 a b c g4 show ?thesis
            by (auto simp: createTarget_def bufsOfTarget_def)
        qed
      qed
    qed
  qed
qed

lemma createTargets_grows:
  "createTargets ts acc st = (err, targets, st') \<Longrightarrow>
   \<exists>new. bufsOf targets = bufsOf acc \<union> new \<and> grows st new st'"
proof (induction ts arbitrary: acc st)
  case Nil
  then show ?case using grows_refl by auto
next
  case (Cons t ts)
  obtain e1 nt st1 where ct: "createTarget t st = (e1, nt, st1)"
    by (cases "createTarget t st") auto
  note g = createTarget_grows [OF ct]
  have app: "bufsOf (acc @ [nt]) = bufsOf acc \<union> bufsOfTarget nt"
    by (auto simp: bufsOf_def)
  show ?case
  proof (cases e1)
    case None
    with Cons.prems ct have "createTargets ts (acc @ [nt]) st1 = (err, targets, st')" by simp
    from Cons.IH [OF this] obtain new where
      n: "bufsOf targets = bufsOf (acc @ [nt]) \<union> new" "grows st1 new st'" by blast
    from grows_trans [OF g n(2)] n(1) app show ?thesis
      by (auto simp: Un_assoc)
  next
    case (Some e)
    with Cons.prems ct g app show ?thesis by auto
  qed
qed

lemma rollback:
  assumes ok: "bufs_ok st" and g: "grows st new st'" and b: "bufsOf targets = new"
  shows "destroyTargets targets st' = st\<lparr>allocs := allocs st'\<rparr>"
proof -
  from g have 1: "st' = st\<lparr>liveBufs := liveBufs st \<union> new, allocs := allocs st'\<rparr>"
    and n: "new \<subseteq> {allocs st..<allocs st'}" by (simp_all add: grows_def)
  have "liveBufs st \<inter> new = {}"
  proof (rule ccontr)
    assume "liveBufs st \<inter> new \<noteq> {}"
    then obtain x where x: "x \<in> liveBufs st" "x \<in> new" by blast
    from x(1) ok have "x < allocs st" by (simp add: bufs_ok_def)
    moreover from x(2) n have "allocs st \<le> x" by auto
    ultimately show False by simp
  qed
  then have d: "liveBufs st \<union> new - new = liveBufs st" by auto
  have "destroyTargets targets st' = st\<lparr>liveBufs := liveBufs st \<union> new - new, allocs := allocs st'\<rparr>"
    by (subst 1) (simp add: destroyTargets_eq b)
  then show ?thesis by (simp add: d)
qed

lemma createMorph_failure:
  assumes ok: "bufs_ok st" and c: "createMorph resource data st = (Inl e, st')"
  shows "st' = st\<lparr>allocs := allocs st'\<rparr>"
proof (cases "canvas st")
  case None
  with c show ?thesis by (simp add: createMorph_def)
next
  case (Some cv)
  obtain err targets st1 where ct: "createTargets (d_targets data) [] st = (err, targets, st1)"
    by (cases "createTargets (d_targets data) [] st") auto
  from createTargets_grows [OF ct] obtain new where
    n: "bufsOf targets = new" "grows st new st1" by (auto simp: bufsOf_def)
  from rollback [OF ok n(2) n(1)] have r: "destroyTargets targets st1 = st\<lparr>allocs := allocs st1\<rparr>" .
  from c Some ct have "st' = destroyTargets targets st1"
    by (auto simp: createMorph_def split: option.splits)
  with r show ?thesis by simp
qed

text \<open>
  The states that the module reaches from \<open>initState\<close> satisfy \<open>bufs_ok\<close>.
\<close>

lemma grows_fields:
  assumes "grows st new st'"
  shows "canvasMorphs st' = canvasMorphs st" "currentMorphs st' = currentMorphs st"
    "canvas st' = canvas st" "liveBufs st' = liveBufs st \<union> new"
proof -
  from assms have 1: "st' = st\<lparr>liveBufs := liveBufs st \<union> new, allocs := allocs st'\<rparr>"
    by (simp add: grows_def)
  show "canvasMorphs st' = canvasMorphs st"
    using arg_cong [where f = canvasMorphs, OF 1] by simp
  show "currentMorphs st' = currentMorphs st"
    using arg_cong [where f = currentMorphs, OF 1] by simp
  show "canvas st' = canvas st"
    using arg_cong [where f = canvas, OF 1] by simp
  show "liveBufs st' = liveBufs st \<union> new"
    using arg_cong [where f = liveBufs, OF 1] by simp
qed

lemma grows_bufs_ok:
  assumes "grows st new st'" "bufs_ok st"
  shows "bufs_ok st'"
proof -
  from assms(1) have n: "new \<subseteq> {allocs st..<allocs st'}" and le: "allocs st \<le> allocs st'"
    by (simp_all add: grows_def)
  from grows_fields(4) [OF assms(1)] assms(2) n le show ?thesis
    by (fastforce simp: bufs_ok_def)
qed

lemma bufs_ok_initState: "bufs_ok (initState doc fails env)"
  by (simp add: bufs_ok_def initState_def)

lemma bufs_ok_onSceneCompiling: "bufs_ok st \<Longrightarrow> bufs_ok (onSceneCompiling c st)"
  by (simp add: bufs_ok_def onSceneCompiling_def)

lemma bufs_ok_createMorph:
  assumes "bufs_ok st" "createMorph resource data st = (r, st')"
  shows "bufs_ok st'"
proof (cases "canvas st")
  case None
  with assms show ?thesis by (simp add: createMorph_def)
next
  case (Some c)
  obtain err targets st1 where ct: "createTargets (d_targets data) [] st = (err, targets, st1)"
    by (cases "createTargets (d_targets data) [] st") auto
  from createTargets_grows [OF ct] have g: "grows st (bufsOf targets) st1"
    by (auto simp: bufsOf_def)
  from grows_bufs_ok [OF g assms(1)] have ok1: "bufs_ok st1" .
  then have "bufs_ok (destroyTargets targets st1)"
    by (auto simp: destroyTargets_eq bufs_ok_def)
  with assms(2) Some ct ok1 show ?thesis
    by (auto simp: createMorph_def bufs_ok_def split: option.splits)
qed


text \<open>
  Which allocation throws. Every step of \<^verbatim>\<open>_createMorph\<close> ends in an error exactly when
  one of the allocations it needs throws, and the error is the one thrown.
\<close>

lemma throwsFrom_0 [simp]: "\<not> throwsFrom fails a 0"
  by (simp add: throwsFrom_def)

lemma throwsFrom_1 [simp]: "throwsFrom fails a (Suc 0) = fails a"
  by (simp add: throwsFrom_def)

lemma throwsFrom_add:
  "throwsFrom fails a (m + n) = (throwsFrom fails a m \<or> throwsFrom fails (a + m) n)"
proof
  assume "throwsFrom fails a (m + n)"
  then obtain k where k: "k < m + n" "fails (a + k)" by (auto simp: throwsFrom_def)
  show "throwsFrom fails a m \<or> throwsFrom fails (a + m) n"
  proof (cases "k < m")
    case True
    with k show ?thesis by (auto simp: throwsFrom_def)
  next
    case False
    with k have "k - m < n" "fails (a + m + (k - m))" by simp_all
    then show ?thesis by (auto simp: throwsFrom_def)
  qed
next
  assume "throwsFrom fails a m \<or> throwsFrom fails (a + m) n"
  then show "throwsFrom fails a (m + n)"
  proof
    assume "throwsFrom fails a m"
    then obtain k where "k < m" "fails (a + k)" by (auto simp: throwsFrom_def)
    then have "k < m + n" "fails (a + k)" by simp_all
    then show ?thesis unfolding throwsFrom_def by blast
  next
    assume "throwsFrom fails (a + m) n"
    then obtain k where "k < n" "fails (a + m + k)" by (auto simp: throwsFrom_def)
    then have "m + k < m + n" "fails (a + (m + k))" by (simp_all add: add.assoc)
    then show ?thesis unfolding throwsFrom_def by blast
  qed
qed

lemma allocIf_outcome:
  assumes "allocIf arr st = (r, st')"
  shows "failing st' = failing st \<and>
         (case r of
            Inl e \<Rightarrow> e = AllocationFailure \<and> throwsFrom (failing st) (allocs st) (needsBuffer arr)
          | Inr b \<Rightarrow> \<not> throwsFrom (failing st) (allocs st) (needsBuffer arr) \<and>
                     allocs st' = allocs st + needsBuffer arr)"
  using assms
  by (auto simp: allocIf_def newArrayBuffer_def needsBuffer_def split: option.splits if_splits)

lemma createTarget_outcome:
  assumes "createTarget t st = (err, newTarget, st')"
  shows "failing st' = failing st \<and>
         (case err of
            Some e \<Rightarrow> e = AllocationFailure \<and>
                      throwsFrom (failing st) (allocs st) (buffersOfData t)
          | None \<Rightarrow> \<not> throwsFrom (failing st) (allocs st) (buffersOfData t) \<and>
                    allocs st' = allocs st + buffersOfData t)"
proof -
  obtain r1 st1 where 1: "allocIf (positions t) st = (r1, st1)" by (cases "allocIf (positions t) st")
  obtain r2 st2 where 2: "allocIf (normals t) st1 = (r2, st2)" by (cases "allocIf (normals t) st1")
  obtain r3 st3 where 3: "allocIf (uv t) st2 = (r3, st3)" by (cases "allocIf (uv t) st2")
  obtain r4 st4 where 4: "allocIf (uv2 t) st3 = (r4, st4)" by (cases "allocIf (uv2 t) st3")
  note o1 = allocIf_outcome [OF 1]
  note o2 = allocIf_outcome [OF 2]
  note o3 = allocIf_outcome [OF 3]
  note o4 = allocIf_outcome [OF 4]
  show ?thesis
  proof (cases r1)
    case (Inl e)
    with assms 1 o1 show ?thesis
      by (auto simp: createTarget_def buffersOfData_def throwsFrom_add add.assoc)
  next
    case a: (Inr v)
    show ?thesis
    proof (cases r2)
      case (Inl e)
      with assms 1 2 a o1 o2 show ?thesis
        by (auto simp: createTarget_def buffersOfData_def throwsFrom_add add.assoc)
    next
      case b: (Inr n)
      show ?thesis
      proof (cases r3)
        case (Inl e)
        with assms 1 2 3 a b o1 o2 o3 show ?thesis
          by (auto simp: createTarget_def buffersOfData_def throwsFrom_add add.assoc)
      next
        case c: (Inr u)
        show ?thesis
        proof (cases r4)
          case (Inl e)
          with assms 1 2 3 4 a b c o1 o2 o3 o4 show ?thesis
            by (auto simp: createTarget_def buffersOfData_def throwsFrom_add add.assoc)
        next
          case (Inr u2)
          with assms 1 2 3 4 a b c o1 o2 o3 o4 show ?thesis
            by (auto simp: createTarget_def buffersOfData_def throwsFrom_add add.assoc)
        qed
      qed
    qed
  qed
qed

lemma createTargets_outcome:
  "createTargets ts acc st = (err, targets, st') \<Longrightarrow>
   failing st' = failing st \<and>
   (case err of
      Some e \<Rightarrow> e = AllocationFailure \<and>
                throwsFrom (failing st) (allocs st) (sum_list (map buffersOfData ts))
    | None \<Rightarrow> \<not> throwsFrom (failing st) (allocs st) (sum_list (map buffersOfData ts)) \<and>
              allocs st' = allocs st + sum_list (map buffersOfData ts) \<and>
              length targets = length acc + length ts)"
proof (induction ts arbitrary: acc st)
  case Nil
  then show ?case by auto
next
  case (Cons t ts)
  obtain e1 nt st1 where ct: "createTarget t st = (e1, nt, st1)"
    by (cases "createTarget t st") auto
  note o = createTarget_outcome [OF ct]
  show ?case
  proof (cases e1)
    case None
    with Cons.prems ct have r: "createTargets ts (acc @ [nt]) st1 = (err, targets, st')" by simp
    from Cons.IH [OF r] o None show ?thesis
      by (auto simp: throwsFrom_add add.assoc split: option.splits)
  next
    case (Some e)
    with Cons.prems ct o show ?thesis by (auto simp: throwsFrom_add add.assoc)
  qed
qed

lemma buffersNeeded_typed: "buffersNeeded (createTypedMorph data) = buffersNeeded data"
proof -
  have "buffersOfData (createTypedArrays t) = buffersOfData t" for t
    by (simp add: buffersOfData_def createTypedArrays_def)
  then show ?thesis
    by (simp add: buffersNeeded_def createTypedMorph_def comp_def)
qed

lemma createMorph_throws:
  assumes c: "canvas st \<noteq> None" and t: "throwsWithin st (buffersNeeded data)"
  shows "\<exists>st'. createMorph resource data st = (Inl AllocationFailure, st')"
proof -
  obtain err targets st1 where ct: "createTargets (d_targets data) [] st = (err, targets, st1)"
    by (cases "createTargets (d_targets data) [] st") auto
  from createTargets_outcome [OF ct] t have "err = Some AllocationFailure"
    by (cases err) (auto simp: throwsWithin_def buffersNeeded_def)
  with c ct show ?thesis by (auto simp: createMorph_def)
qed

lemma createMorph_returns:
  assumes c: "canvas st \<noteq> None" and cur: "currentMorphs st \<noteq> None"
    and t: "\<not> throwsWithin st (buffersNeeded data)"
  shows "\<exists>h st'. createMorph resource data st = (Inr h, st') \<and>
           allocs st' = allocs st + buffersNeeded data"
proof -
  obtain err targets st1 where ct: "createTargets (d_targets data) [] st = (err, targets, st1)"
    by (cases "createTargets (d_targets data) [] st") auto
  from createTargets_outcome [OF ct] t have e: "err = None"
    and a: "allocs st1 = allocs st + buffersNeeded data"
    by (cases err; auto simp: throwsWithin_def buffersNeeded_def)+
  from createTargets_grows [OF ct] obtain new where "grows st new st1" by blast
  from grows_fields(2) [OF this] cur have "currentMorphs st1 \<noteq> None" by simp
  with c ct e a show ?thesis by (auto simp: createMorph_def)
qed


text \<open>
  Claim C2. In a state where the live buffers are buffers that were given out: when the
  canvas is set and one of the allocations that a call of \<^verbatim>\<open>createMorphGeometry\<close> with
  inline targets needs throws, the call ends with the allocation failure thrown again;
  and whenever the call throws, the state after it is the state before it but for the
  count of allocations: the live buffers are those that were live before (every buffer
  that the call allocated has been destroyed), and the cache is unchanged, so the
  resource id has not been registered. When no allocation throws and the canvas and the
  current map are set, the call returns a handle after allocating every buffer.
\<close>

theorem createMorphGeometry_rollback:
  assumes "bufs_ok st"
  shows "(canvas st \<noteq> None \<and> throwsWithin st (buffersNeeded source) \<longrightarrow>
            (\<exists>st'. createMorphGeometry createKey resource source st = (Inl AllocationFailure, st') \<and>
               liveBufs st' = liveBufs st \<and> liveBufs st' \<inter> {allocs st..} = {} \<and>
               canvasMorphs st' = canvasMorphs st \<and> st' = st\<lparr>allocs := allocs st'\<rparr>)) \<and>
         (createMorphGeometry createKey resource source st = (Inl e, st2) \<longrightarrow>
            liveBufs st2 = liveBufs st \<and> liveBufs st2 \<inter> {allocs st..} = {} \<and>
            canvasMorphs st2 = canvasMorphs st \<and> st2 = st\<lparr>allocs := allocs st2\<rparr>) \<and>
         (canvas st \<noteq> None \<and> currentMorphs st \<noteq> None \<and>
          \<not> throwsWithin st (buffersNeeded source) \<longrightarrow>
            (\<exists>h st'. createMorphGeometry createKey resource source st = (Inr h, st') \<and>
               allocs st' = allocs st + buffersNeeded source))"
proof -
  have rolled: "liveBufs s = liveBufs st \<and> liveBufs s \<inter> {allocs st..} = {} \<and>
      canvasMorphs s = canvasMorphs st \<and> s = st\<lparr>allocs := allocs s\<rparr>"
    if f: "createMorphGeometry createKey resource source st = (Inl x, s)" for x s
  proof -
    from f have eq: "s = st\<lparr>allocs := allocs s\<rparr>"
      unfolding createMorphGeometry_def by (rule createMorph_failure [OF assms])
    have l: "liveBufs s = liveBufs st"
      using arg_cong [where f = liveBufs, OF eq] by simp
    have c: "canvasMorphs s = canvasMorphs st"
      using arg_cong [where f = canvasMorphs, OF eq] by simp
    from assms l have "liveBufs s \<inter> {allocs st..} = {}"
      by (auto simp: bufs_ok_def)
    with eq l c show ?thesis by simp
  qed
  have 1: "\<exists>st'. createMorphGeometry createKey resource source st = (Inl AllocationFailure, st') \<and>
               liveBufs st' = liveBufs st \<and> liveBufs st' \<inter> {allocs st..} = {} \<and>
               canvasMorphs st' = canvasMorphs st \<and> st' = st\<lparr>allocs := allocs st'\<rparr>"
    if "canvas st \<noteq> None" "throwsWithin st (buffersNeeded source)"
  proof -
    from that have "throwsWithin st (buffersNeeded (createTypedMorph source))"
      by (simp add: buffersNeeded_typed)
    from createMorph_throws [OF that(1) this] obtain st' where
      "createMorphGeometry createKey resource source st = (Inl AllocationFailure, st')"
      unfolding createMorphGeometry_def by blast
    with rolled [OF this] show ?thesis by blast
  qed
  have 3: "\<exists>h st'. createMorphGeometry createKey resource source st = (Inr h, st') \<and>
               allocs st' = allocs st + buffersNeeded source"
    if "canvas st \<noteq> None" "currentMorphs st \<noteq> None"
      "\<not> throwsWithin st (buffersNeeded source)"
  proof -
    from that have "\<not> throwsWithin st (buffersNeeded (createTypedMorph source))"
      by (simp add: buffersNeeded_typed)
    from createMorph_returns [OF that(1,2) this] show ?thesis
      unfolding createMorphGeometry_def by (simp add: buffersNeeded_typed)
  qed
  from 1 rolled 3 show ?thesis by blast
qed

theorem createMorphGeometry_rollback_witness:
  "bufs_ok exShort \<and> canvas exShort \<noteq> None \<and> throwsWithin exShort (buffersNeeded exData) \<and>
   \<not> failing exShort 0 \<and> \<not> failing exShort 1 \<and>
   fst (createMorphGeometry (\<lambda>m. ''m0'') None exData exShort) = Inl AllocationFailure \<and>
   allocs (snd (createMorphGeometry (\<lambda>m. ''m0'') None exData exShort)) = 3 \<and>
   liveBufs (snd (createMorphGeometry (\<lambda>m. ''m0'') None exData exShort)) = {} \<and>
   canvasMorphs (snd (createMorphGeometry (\<lambda>m. ''m0'') None exData exShort)) = [(''c'', [])] \<and>
   bufs_ok exCompiled \<and> \<not> throwsWithin exCompiled (buffersNeeded exData) \<and>
   (\<exists>h st'. createMorphGeometry (\<lambda>m. ''m0'') None exData exCompiled = (Inr h, st') \<and>
      allocs st' = 3)"
proof -
  have ok: "bufs_ok exShort" by (simp add: bufs_ok_def morph_defs)
  have ok': "bufs_ok exCompiled" by (simp add: bufs_ok_def morph_defs)
  have n: "buffersNeeded exData = 3"
    by (simp add: buffersNeeded_def buffersOfData_def needsBuffer_def exData_def exTargetData_def)
  have cv: "canvas exShort \<noteq> None" "canvas exCompiled \<noteq> None"
    "currentMorphs exCompiled \<noteq> None" "allocs exCompiled = 0"
    by (simp_all add: morph_defs)
  have f: "failing exShort 2" "\<not> failing exShort 0" "\<not> failing exShort 1" "allocs exShort = 0"
    by (simp_all add: morph_defs)
  have "(2::nat) < 3 \<and> failing exShort (allocs exShort + 2)" by (simp add: morph_defs)
  then have t: "throwsWithin exShort (buffersNeeded exData)"
    unfolding throwsWithin_def throwsFrom_def n by blast
  have t': "\<not> throwsWithin exCompiled (buffersNeeded exData)"
    by (simp add: throwsWithin_def throwsFrom_def morph_defs)
  have a: "allocs (snd (createMorphGeometry (\<lambda>m. ''m0'') None exData exShort)) = 3"
    by (simp add: morph_defs)
  have l: "liveBufs exShort = {}" and c: "canvasMorphs exShort = [(''c'', [])]"
    by (simp_all add: morph_defs)
  from createMorphGeometry_rollback [OF ok, of exData "\<lambda>m. ''m0''" None] cv t
  obtain st' where "createMorphGeometry (\<lambda>m. ''m0'') None exData exShort = (Inl AllocationFailure, st')"
    "liveBufs st' = liveBufs exShort" "canvasMorphs st' = canvasMorphs exShort"
    by blast
  then have r: "fst (createMorphGeometry (\<lambda>m. ''m0'') None exData exShort) = Inl AllocationFailure"
    "liveBufs (snd (createMorphGeometry (\<lambda>m. ''m0'') None exData exShort)) = {}"
    "canvasMorphs (snd (createMorphGeometry (\<lambda>m. ''m0'') None exData exShort)) = [(''c'', [])]"
    using l c by simp_all
  from createMorphGeometry_rollback [OF ok', of exData "\<lambda>m. ''m0''" None] cv t'
  have s: "\<exists>h st'. createMorphGeometry (\<lambda>m. ''m0'') None exData exCompiled = (Inr h, st') \<and>
      allocs st' = 3"
    by (simp add: n)
  from ok ok' cv t t' f a r s show ?thesis by blast
qed

subsection \<open>Destroying a morph\<close>

lemma map_of_putMorph:
  "map_of (putMorph cid r v cm) =
   (map_of cm)(cid := map_option (AList.update r v) (map_of cm cid))"
  by (simp add: putMorph_def AList.map_of_map_entry fun_eq_iff split: option.splits)

lemma entry_putMorph:
  "canvasMorphs st' = putMorph cid r v (canvasMorphs st) \<Longrightarrow>
   entry st' cid' r' =
   (if cid' = cid \<and> r' = r \<and> map_of (canvasMorphs st) cid \<noteq> None then Some v
    else entry st cid' r')"
  by (auto simp: entry_def map_of_putMorph update_conv' split: option.splits)

lemma entry_liveBufs [simp]: "entry (st\<lparr>liveBufs := x\<rparr>) cid r = entry st cid r"
  by (simp add: entry_def)

lemma canvasMorphs_destroyTargets [simp]:
  "canvasMorphs (destroyTargets ts st) = canvasMorphs st"
  by (simp add: destroyTargets_eq)

lemma document_destroyTargets [simp]: "document (destroyTargets ts st) = document st"
  by (simp add: destroyTargets_eq)

lemma entry_destroyTargets [simp]: "entry (destroyTargets ts st) cid r = entry st cid r"
  by (simp add: entry_def)

lemma destroyMorph_Some:
  assumes "map_of (canvasMorphs st) (canvasId (m_canvas m)) \<noteq> None"
  shows "\<exists>st'. destroyMorph (Some m) st = (Inr (), st') \<and>
           liveBufs st' = (if canvasId (m_canvas m) \<in> document st
                           then liveBufs st - bufsOf (m_targets m) else liveBufs st) \<and>
           document st' = document st \<and>
           (\<forall>cid r. entry st' cid r =
              (if cid = canvasId (m_canvas m) \<and> r = m_resource m then Some None
               else entry st cid r))"
proof -
  let ?cid = "canvasId (m_canvas m)"
  let ?st1 = "if ?cid \<in> document st then destroyTargets (m_targets m) st else st"
  let ?st' = "?st1\<lparr>canvasMorphs := putMorph ?cid (m_resource m) None (canvasMorphs ?st1)\<rparr>"
  have cm: "canvasMorphs ?st1 = canvasMorphs st" by simp
  have d: "destroyMorph (Some m) st = (Inr (), ?st')"
    using assms by (auto simp: destroyMorph_def Let_def)
  have e: "entry ?st' cid r =
      (if cid = ?cid \<and> r = m_resource m then Some None else entry st cid r)" for cid r
    using entry_putMorph [of ?st' ?cid "m_resource m" None st cid r] assms cm
    by (auto simp: entry_def)
  have l: "liveBufs ?st' = (if ?cid \<in> document st
      then liveBufs st - bufsOf (m_targets m) else liveBufs st)"
    by (simp add: destroyTargets_eq)
  have "document ?st' = document st" by simp
  with d e l show ?thesis by blast
qed
text \<open>
  After the compile event, the handle that \<^verbatim>\<open>_createMorph\<close> returns leads to the new
  morph, cached under its own ids.
\<close>

lemma createMorph_cached:
  assumes c: "canvas st = Some c" and cur: "currentMorphs st = Some (canvasId c)"
    and mp: "map_of (canvasMorphs st) (canvasId c) \<noteq> None"
    and cr: "createMorph resource data st = (Inr h, st')"
  shows "\<exists>m. cached st' h m \<and> m_keys m = d_keys data \<and>
           liveBufs st' = liveBufs st \<union> bufsOf (m_targets m)"
proof -
  obtain err targets st1 where ct: "createTargets (d_targets data) [] st = (err, targets, st1)"
    by (cases "createTargets (d_targets data) [] st") auto
  from createTargets_grows [OF ct] have g: "grows st (bufsOf targets) st1"
    by (auto simp: bufsOf_def)
  note f = grows_fields [OF g]
  from cr c ct have e: "err = None" by (auto simp: createMorph_def split: option.splits)
  let ?m = "\<lparr>m_oid = nextMorph st1, m_canvas = c, m_resource = resource,
             m_keys = d_keys data, m_targets = targets\<rparr>"
  let ?st' = "st1\<lparr>canvasMorphs := putMorph (canvasId c) resource (Some ?m) (canvasMorphs st1),
                  nextMorph := Suc (nextMorph st1)\<rparr>"
  from cr c ct e cur f have r: "h = \<lparr>h_canvasId = canvasId c, h_resource = resource\<rparr>" "st' = ?st'"
    by (auto simp: createMorph_def)
  have "entry ?st' (canvasId c) resource = Some (Some ?m)"
    using entry_putMorph [of ?st' "canvasId c" resource "Some ?m" st1 "canvasId c" resource] mp f
    by simp
  with r have "cached st' h ?m" by (simp add: cached_def)
  moreover have "liveBufs st' = liveBufs st \<union> bufsOf (m_targets ?m)" using r f by simp
  ultimately show ?thesis by (intro exI [of _ ?m]) simp
qed

lemma onSceneCompiling_ready:
  "canvas (onSceneCompiling c st) = Some c \<and>
   currentMorphs (onSceneCompiling c st) = Some (canvasId c) \<and>
   map_of (canvasMorphs (onSceneCompiling c st)) (canvasId c) \<noteq> None"
  by (auto simp: onSceneCompiling_def map_add_def)

lemma bufs_ok_destroyMorphGeometry:
  assumes "bufs_ok st" "destroyMorphGeometry h st = (r, st')"
  shows "bufs_ok st'"
  using assms
  by (auto simp: destroyMorphGeometry_def destroyMorph_def Let_def destroyTargets_eq bufs_ok_def
      split: option.splits if_splits inherited.splits)


lemma map_of_key: "map_of xs k = Some v \<Longrightarrow> k \<in> set (map fst xs)"
  using map_of_eq_None_iff [of xs k] by auto

lemma cached_map: "cached st h m \<Longrightarrow> map_of (canvasMorphs st) (h_canvasId h) \<noteq> None"
  by (auto simp: cached_def entry_def split: option.splits)

lemma destroyMorphGeometry_not_found:
  assumes "map_of (canvasMorphs st) (h_canvasId h) \<noteq> None"
    and "entry st (h_canvasId h) (h_resource h) = Some None \<or>
         entry st (h_canvasId h) (h_resource h) = None \<and>
         ofPrototype (objectEnv st) (h_resource h) \<noteq> TruthyValue"
  shows "destroyMorphGeometry h st = (Inl (MorphNotFound (h_resource h)), st)"
  using assms
  by (auto simp: destroyMorphGeometry_def entry_def split: option.splits inherited.splits)

lemma destroyMorphGeometry_cached:
  assumes "cached st h m"
  shows "\<exists>st'. destroyMorphGeometry h st = (Inr (), st') \<and>
           liveBufs st' = (if h_canvasId h \<in> document st
                           then liveBufs st - bufsOf (m_targets m) else liveBufs st) \<and>
           map_of (canvasMorphs st') (h_canvasId h) \<noteq> None \<and>
           entry st' (h_canvasId h) (h_resource h) = Some None \<and>
           destroyMorphGeometry h st' = (Inl (MorphNotFound (h_resource h)), st')"
proof -
  from assms have ids: "canvasId (m_canvas m) = h_canvasId h" "m_resource m = h_resource h"
    and e: "entry st (h_canvasId h) (h_resource h) = Some (Some m)"
    by (simp_all add: cached_def)
  from cached_map [OF assms] ids have "map_of (canvasMorphs st) (canvasId (m_canvas m)) \<noteq> None"
    by simp
  from destroyMorph_Some [OF this] obtain st' where
    d: "destroyMorph (Some m) st = (Inr (), st')"
    and l: "liveBufs st' = (if canvasId (m_canvas m) \<in> document st
                           then liveBufs st - bufsOf (m_targets m) else liveBufs st)"
    and en: "\<forall>cid r. entry st' cid r =
              (if cid = canvasId (m_canvas m) \<and> r = m_resource m then Some None
               else entry st cid r)"
    by blast
  from e have dg: "destroyMorphGeometry h st = destroyMorph (Some m) st"
    by (auto simp: destroyMorphGeometry_def entry_def split: option.splits)
  from en ids have n: "entry st' (h_canvasId h) (h_resource h) = Some None" by simp
  then have mp: "map_of (canvasMorphs st') (h_canvasId h) \<noteq> None"
    by (auto simp: entry_def split: option.splits)
  from n have "destroyMorphGeometry h st' = (Inl (MorphNotFound (h_resource h)), st')"
    by (intro destroyMorphGeometry_not_found [OF mp]) simp
  with dg d l n mp ids show ?thesis by simp
qed

lemma destroyMorphGeometry_no_cache:
  "map_of (canvasMorphs st) (h_canvasId h) = None \<Longrightarrow>
   ofPrototype (objectEnv st) (h_canvasId h) \<noteq> TruthyValue \<Longrightarrow>
   destroyMorphGeometry h st = (Inr (), st)"
  by (simp add: destroyMorphGeometry_def split: inherited.splits)

text \<open>
  Where an id names a truthy value that the object inherits, the reads find it: the call
  throws, and changes nothing.
\<close>

lemma destroyMorphGeometry_inherited:
  "map_of (canvasMorphs st) (h_canvasId h) = None \<Longrightarrow>
   ofPrototype (objectEnv st) (h_canvasId h) = TruthyValue \<Longrightarrow>
   destroyMorphGeometry h st =
     (Inl (if ofValue (objectEnv st) (h_canvasId h) (h_resource h) = TruthyValue
           then TypeError else MorphNotFound (h_resource h)), st)"
  "map_of (canvasMorphs st) (h_canvasId h) \<noteq> None \<Longrightarrow>
   entry st (h_canvasId h) (h_resource h) = None \<Longrightarrow>
   ofPrototype (objectEnv st) (h_resource h) = TruthyValue \<Longrightarrow>
   destroyMorphGeometry h st = (Inl TypeError, st)"
  by (auto simp: destroyMorphGeometry_def entry_def split: option.splits inherited.splits)

lemma destroyMorphGeometry_inherited_examples:
  "destroyMorphGeometry \<lparr>h_canvasId = ''constructor'', h_resource = ''m0''\<rparr> exCompiled =
     (Inl (MorphNotFound ''m0''), exCompiled)"
  "destroyMorphGeometry \<lparr>h_canvasId = ''constructor'', h_resource = ''keys''\<rparr> exCompiled =
     (Inl TypeError, exCompiled)"
  "destroyMorphGeometry \<lparr>h_canvasId = ''c'', h_resource = ''toString''\<rparr> exCompiled =
     (Inl TypeError, exCompiled)"
  "destroyMorphGeometry \<lparr>h_canvasId = ''c'', h_resource = ''m1''\<rparr> exCompiled =
     (Inl (MorphNotFound ''m1''), exCompiled)"
  "destroyMorphGeometry \<lparr>h_canvasId = ''d'', h_resource = ''m0''\<rparr> exCompiled =
     (Inr (), exCompiled)"
  by (simp_all add: morph_defs exBuiltins_def exFunctions_def exStatics_def)

lemma destroyMorph_error: "destroyMorph v st = (Inl e, st') \<Longrightarrow> e = TypeError"
  by (auto simp: destroyMorph_def Let_def split: option.splits)

lemma destroyMorph_keeps_null:
  assumes "destroyMorph v st = (Inr u, st')" "entry st cid r = Some None"
  shows "entry st' cid r = Some None"
proof (cases v)
  case None
  with assms show ?thesis by (simp add: destroyMorph_def)
next
  case (Some m)
  show ?thesis
  proof (cases "map_of (canvasMorphs st) (canvasId (m_canvas m))")
    case None
    with assms Some show ?thesis
      by (auto simp: destroyMorph_def Let_def entry_def split: if_splits)
  next
    case s: (Some morphs)
    then have "map_of (canvasMorphs st) (canvasId (m_canvas m)) \<noteq> None" by simp
    from destroyMorph_Some [OF this] assms Some show ?thesis by auto
  qed
qed

lemma resetMorphs_error: "resetMorphs c rs st = (Inl e, st') \<Longrightarrow> e = TypeError"
proof (induction rs arbitrary: st)
  case Nil
  then show ?case by simp
next
  case (Cons r rs)
  then show ?case
    by (auto split: prod.splits sum.splits dest: destroyMorph_error)
qed

lemma resetMorphs_keeps_null:
  "resetMorphs c rs st = (Inr u, st') \<Longrightarrow> entry st cid r = Some None \<Longrightarrow>
   entry st' cid r = Some None"
proof (induction rs arbitrary: st)
  case Nil
  then show ?case by simp
next
  case (Cons r0 rs)
  then show ?case
    by (auto split: prod.splits sum.splits dest: destroyMorph_keeps_null)
qed

lemma resetMorphs_null:
  "r \<in> set rs \<Longrightarrow> entry st cid r = Some None \<Longrightarrow> fst (resetMorphs cid rs st) = Inl TypeError"
proof (induction rs arbitrary: st)
  case Nil
  then show ?case by simp
next
  case (Cons r0 rs)
  let ?v = "case entry st cid r0 of None \<Rightarrow> None | Some v \<Rightarrow> v"
  obtain res st1 where d: "destroyMorph ?v st = (res, st1)" by (cases "destroyMorph ?v st")
  show ?case
  proof (cases res)
    case (Inl e)
    with d destroyMorph_error [of ?v st e st1] show ?thesis by simp
  next
    case (Inr u)
    with d Cons.prems have "r0 \<noteq> r" by (auto simp: destroyMorph_def)
    with Cons.prems have "r \<in> set rs" by simp
    moreover from d Inr Cons.prems have "entry st1 cid r = Some None"
      by (auto dest: destroyMorph_keeps_null)
    ultimately have "fst (resetMorphs cid rs st1) = Inl TypeError" by (rule Cons.IH)
    with d Inr show ?thesis by simp
  qed
qed

lemma resetCanvases_null:
  "cid \<in> set cids \<Longrightarrow> entry st cid r = Some None \<Longrightarrow>
   fst (resetCanvases cids st) = Inl TypeError"
proof (induction cids arbitrary: st)
  case Nil
  then show ?case by simp
next
  case (Cons c cids)
  let ?rs = "case map_of (canvasMorphs st) c of None \<Rightarrow> [] | Some morphs \<Rightarrow> map fst morphs"
  obtain res st1 where d: "resetMorphs c ?rs st = (res, st1)" by (cases "resetMorphs c ?rs st")
  show ?case
  proof (cases res)
    case (Inl e)
    with d resetMorphs_error [of c ?rs st e st1] show ?thesis by simp
  next
    case (Inr u)
    have "c \<noteq> cid"
    proof
      assume c: "c = cid"
      from Cons.prems(2) obtain morphs where m: "map_of (canvasMorphs st) cid = Some morphs"
        "map_of morphs r = Some None" by (auto simp: entry_def split: option.splits)
      then have "r \<in> set (map fst morphs)" by (auto dest: map_of_key)
      with m c have "r \<in> set ?rs" by simp
      from resetMorphs_null [OF this Cons.prems(2)] c d Inr show False by simp
    qed
    with Cons.prems have "cid \<in> set cids" by simp
    moreover from d Inr Cons.prems have "entry st1 cid r = Some None"
      by (auto dest: resetMorphs_keeps_null)
    ultimately have "fst (resetCanvases cids st1) = Inl TypeError" by (rule Cons.IH)
    with d Inr show ?thesis by simp
  qed
qed

lemma onReset_null:
  assumes "entry st cid r = Some None"
  shows "fst (onReset st) = Inl TypeError"
proof -
  from assms obtain morphs where "map_of (canvasMorphs st) cid = Some morphs"
    by (auto simp: entry_def split: option.splits)
  then have "cid \<in> set (map fst (canvasMorphs st))" by (rule map_of_key)
  from resetCanvases_null [OF this assms] show ?thesis
    by (auto simp: onReset_def split: prod.splits sum.splits)
qed
lemma exCreated_cached: "cached exCreated exHandle exMorph"
  by (simp add: cached_def exMorph_def morph_defs)


text \<open>
  Claim C4, as the code has it, for ids that do not name a truthy value that a plain
  object inherits. \<^verbatim>\<open>destroyMorphGeometry\<close> returns without doing anything when the
  canvas of the handle has no map of morphs. When the canvas has a map in which the
  resource id is missing or bound to \<^verbatim>\<open>null\<close>, it throws "morph not found" and changes
  nothing. When the handle leads to a morph, it returns normally; the buffers of all
  targets of the morph are destroyed if the canvas element is still in the document, and
  left alone if it is not; in both cases the resource id stays in the map, bound to
  \<^verbatim>\<open>null\<close>, and a second \<^verbatim>\<open>destroyMorphGeometry\<close> with the same handle throws "morph
  not found".
\<close>

theorem destroyMorphGeometry_cases:
  "(map_of (canvasMorphs st) (h_canvasId h) = None \<and>
    ofPrototype (objectEnv st) (h_canvasId h) \<noteq> TruthyValue \<longrightarrow>
      destroyMorphGeometry h st = (Inr (), st)) \<and>
   (map_of (canvasMorphs st) (h_canvasId h) \<noteq> None \<and>
    (entry st (h_canvasId h) (h_resource h) = Some None \<or>
     entry st (h_canvasId h) (h_resource h) = None \<and>
     ofPrototype (objectEnv st) (h_resource h) \<noteq> TruthyValue) \<longrightarrow>
      destroyMorphGeometry h st = (Inl (MorphNotFound (h_resource h)), st)) \<and>
   (cached st h m \<longrightarrow>
      (\<exists>st'. destroyMorphGeometry h st = (Inr (), st') \<and>
         liveBufs st' = (if h_canvasId h \<in> document st
                         then liveBufs st - bufsOf (m_targets m) else liveBufs st) \<and>
         entry st' (h_canvasId h) (h_resource h) = Some None \<and>
         destroyMorphGeometry h st' = (Inl (MorphNotFound (h_resource h)), st')))"
  using destroyMorphGeometry_no_cache [of st h] destroyMorphGeometry_not_found [of st h]
    destroyMorphGeometry_cached [of st h m]
  by blast

theorem destroyMorphGeometry_cases_witness:
  "destroyMorphGeometry exHandle (initState {''c''} (\<lambda>n. False) exBuiltins) =
     (Inr (), initState {''c''} (\<lambda>n. False) exBuiltins) \<and>
   destroyMorphGeometry exHandle exCompiled = (Inl (MorphNotFound ''m0''), exCompiled) \<and>
   liveBufs exCreated = {0, 1, 2} \<and>
   (\<exists>st'. destroyMorphGeometry exHandle exCreated = (Inr (), st') \<and> liveBufs st' = {} \<and>
      entry st' ''c'' ''m0'' = Some None \<and>
      destroyMorphGeometry exHandle st' = (Inl (MorphNotFound ''m0''), st'))"
proof -
  let ?init = "initState {''c''} (\<lambda>n. False) exBuiltins"
  have 1: "map_of (canvasMorphs ?init) (h_canvasId exHandle) = None \<and>
    ofPrototype (objectEnv ?init) (h_canvasId exHandle) \<noteq> TruthyValue"
    by (simp add: morph_defs exBuiltins_def exFunctions_def exStatics_def)
  have 2: "map_of (canvasMorphs exCompiled) (h_canvasId exHandle) \<noteq> None \<and>
    (entry exCompiled (h_canvasId exHandle) (h_resource exHandle) = Some None \<or>
     entry exCompiled (h_canvasId exHandle) (h_resource exHandle) = None \<and>
     ofPrototype (objectEnv exCompiled) (h_resource exHandle) \<noteq> TruthyValue)"
    by (simp add: morph_defs exBuiltins_def exFunctions_def exStatics_def)
  have l: "liveBufs exCreated = {0, 1, 2}" by (auto simp: morph_defs)
  have b: "bufsOf (m_targets exMorph) = {0, 1, 2}"
    by (auto simp: bufsOf_def bufsOfTarget_def exMorph_def)
  have d: "''c'' \<in> document exCreated" by (simp add: morph_defs)
  have h: "h_canvasId exHandle = ''c''" "h_resource exHandle = ''m0''"
    by (simp_all add: exHandle_def)
  from destroyMorphGeometry_cases [of ?init exHandle] 1
  have a: "destroyMorphGeometry exHandle ?init = (Inr (), ?init)" by blast
  from destroyMorphGeometry_cases [of exCompiled exHandle] 2
  have c: "destroyMorphGeometry exHandle exCompiled = (Inl (MorphNotFound ''m0''), exCompiled)"
    by (simp add: h)
  from destroyMorphGeometry_cases [of exCreated exHandle exMorph] exCreated_cached
  have "\<exists>st'. destroyMorphGeometry exHandle exCreated = (Inr (), st') \<and> liveBufs st' = {} \<and>
      entry st' ''c'' ''m0'' = Some None \<and>
      destroyMorphGeometry exHandle st' = (Inl (MorphNotFound ''m0''), st')"
    by (simp add: h l b d)
  with a c l show ?thesis by blast
qed

text \<open>
  The claim as the spec states it fails where the canvas element has left the document
  while its map of morphs is still there: the call returns normally, and the three
  buffers of the morph are as live as before.
\<close>

theorem destroyMorphGeometry_keeps_buffers_counterexample:
  "fst (destroyMorphGeometry exHandle exGone) = Inr () \<and>
   liveBufs exGone = {0, 1, 2} \<and>
   liveBufs (snd (destroyMorphGeometry exHandle exGone)) = {0, 1, 2} \<and>
   entry (snd (destroyMorphGeometry exHandle exGone)) ''c'' ''m0'' = Some None"
  by (auto simp: exGone_def morph_defs)

subsection \<open>Resetting after a destroy\<close>

text \<open>
  Claim C9. After \<^verbatim>\<open>destroyMorphGeometry\<close> has destroyed the morph of a handle, the map
  of the canvas is still there and still has the resource id as a key, bound to
  \<^verbatim>\<open>null\<close>; the listener of \<^verbatim>\<open>RESET\<close>, run in that state, ends with a TypeError (it
  calls \<^verbatim>\<open>destroyMorph\<close> on the \<^verbatim>\<open>null\<close> entry, which reads \<^verbatim>\<open>morph.canvas\<close>).
\<close>

theorem reset_after_destroy:
  assumes "cached st h m"
  shows "\<exists>st'. destroyMorphGeometry h st = (Inr (), st') \<and>
           entry st' (h_canvasId h) (h_resource h) = Some None \<and>
           h_canvasId h \<in> set (map fst (canvasMorphs st')) \<and>
           (\<exists>morphs. map_of (canvasMorphs st') (h_canvasId h) = Some morphs \<and>
              h_resource h \<in> set (map fst morphs)) \<and>
           fst (onReset st') = Inl TypeError"
proof -
  from destroyMorphGeometry_cached [OF assms] obtain st' where
    d: "destroyMorphGeometry h st = (Inr (), st')"
    and n: "entry st' (h_canvasId h) (h_resource h) = Some None"
    by blast
  from n obtain morphs where m: "map_of (canvasMorphs st') (h_canvasId h) = Some morphs"
    "map_of morphs (h_resource h) = Some None"
    by (auto simp: entry_def split: option.splits)
  from m have "h_canvasId h \<in> set (map fst (canvasMorphs st'))"
    "h_resource h \<in> set (map fst morphs)"
    by (auto dest: map_of_key)
  with d n m onReset_null [OF n] show ?thesis by blast
qed

theorem reset_after_destroy_witness:
  "fst (destroyMorphGeometry exHandle exCreated) = Inr () \<and>
   entry (snd (destroyMorphGeometry exHandle exCreated)) ''c'' ''m0'' = Some None \<and>
   fst (onReset (snd (destroyMorphGeometry exHandle exCreated))) = Inl TypeError \<and>
   fst (onReset exCreated) = Inr ()"
proof -
  from reset_after_destroy [OF exCreated_cached] obtain st' where
    "destroyMorphGeometry exHandle exCreated = (Inr (), st')"
    "entry st' (h_canvasId exHandle) (h_resource exHandle) = Some None"
    "fst (onReset st') = Inl TypeError" by blast
  moreover have "fst (onReset exCreated) = Inr ()"
    by (simp add: onReset_def morph_defs)
  ultimately show ?thesis by (simp add: exHandle_def)
qed

subsection \<open>The depth of the stack\<close>

lemma pushMorphGeometry_stackLen:
  "pushMorphGeometry i h factor st = (Inr u, st') \<Longrightarrow> stackLen st' = stackLen st + 1"
  by (auto simp: pushMorphGeometry_def split: option.splits)

lemma runStack_stackLen:
  "runStack ops st = (Inr u, st') \<Longrightarrow>
   stackLen st' = stackLen st + int (length (filter (\<lambda>op. op \<noteq> Pop) ops))
     - int (length (filter (\<lambda>op. op = Pop) ops))"
proof (induction ops arbitrary: st)
  case Nil
  then show ?case by simp
next
  case (Cons op ops)
  show ?case
  proof (cases op)
    case (Push i h factor)
    with Cons.prems obtain u1 st1 where p: "pushMorphGeometry i h factor st = (Inr u1, st1)"
      and r: "runStack ops st1 = (Inr u, st')"
      by (auto split: prod.splits sum.splits)
    from Cons.IH [OF r] pushMorphGeometry_stackLen [OF p] Push show ?thesis by simp
  next
    case Pop
    with Cons.prems have "runStack ops (popMorphGeometry st) = (Inr u, st')" by simp
    from Cons.IH [OF this] Pop show ?thesis by (simp add: popMorphGeometry_def)
  qed
qed


text \<open>
  Claim C8, as the code has it. \<^verbatim>\<open>popMorphGeometry\<close> lowers the depth by one whatever
  it is, and has no way to report anything. The listener of \<^verbatim>\<open>SCENE_COMPILING\<close> sets
  the depth to zero at the start of a compile pass. After a sequence of pushes and pops
  that raises no error, the depth is the depth before, plus the number of pushes, minus
  the number of pops: it is back at its start exactly when the pushes and pops balance.
\<close>

theorem stack_depth:
  "stackLen (popMorphGeometry st) = stackLen st - 1 \<and>
   stackLen (onSceneCompiling c st) = 0 \<and>
   (runStack ops st = (Inr (), st') \<longrightarrow>
      stackLen st' = stackLen st + int (length (filter (\<lambda>op. op \<noteq> Pop) ops))
        - int (length (filter (\<lambda>op. op = Pop) ops)))"
  using runStack_stackLen [of ops st "()" st']
  by (simp add: popMorphGeometry_def onSceneCompiling_def)

theorem stack_depth_witness:
  "stackLen exCreated = 0 \<and>
   fst (runStack [Push ''n1'' exHandle (1 / 5), Push ''n2'' exHandle (4 / 5), Pop, Pop] exCreated)
     = Inr () \<and>
   stackLen (snd (runStack [Push ''n1'' exHandle (1 / 5), Push ''n2'' exHandle (4 / 5), Pop, Pop]
     exCreated)) = 0"
proof -
  let ?ops = "[Push ''n1'' exHandle (1 / 5), Push ''n2'' exHandle (4 / 5), Pop, Pop]"
  have z: "stackLen exCreated = 0" by (simp add: morph_defs)
  have f: "fst (runStack ?ops exCreated) = Inr ()" by (simp add: morph_defs)
  then have "runStack ?ops exCreated = (Inr (), snd (runStack ?ops exCreated))"
    by (metis prod.collapse)
  with stack_depth [of exCreated exCanvas ?ops "snd (runStack ?ops exCreated)"] z
  have "stackLen (snd (runStack ?ops exCreated)) = 0" by simp
  with z f show ?thesis by simp
qed

text \<open>
  The claim as the spec states it fails: a pop at depth zero, right after the compile
  event, returns normally and leaves the depth at -1.
\<close>

theorem pop_at_depth_zero_counterexample:
  "stackLen exCompiled = 0 \<and>
   fst (runStack [Pop] exCompiled) = Inr () \<and>
   stackLen (snd (runStack [Pop] exCompiled)) = - 1"
  by (simp add: morph_defs)

subsection \<open>The checks of the node\<close>

text \<open>
  Claim C7. \<^verbatim>\<open>_setMorph\<close> throws \<^verbatim>\<open>ILLEGAL_NODE_CONFIG\<close> when there are fewer than two
  targets, and when there are at least two and the number of keys differs; with at least
  two targets and as many keys it returns and stores the keys and as many targets. For
  parameters with inline data (no factory function, no stream) \<^verbatim>\<open>_init\<close> throws exactly
  what \<^verbatim>\<open>_setMorph\<close> throws, and returns exactly for the valid inputs. When the data
  come from a factory function and \<^verbatim>\<open>_setMorph\<close> throws in \<^verbatim>\<open>_preCompile\<close>, the node and
  the module are left as they were: no resource is registered.
\<close>

theorem setMorph_validation:
  "(length (theTargets p) < 2 \<longrightarrow>
      setMorph p this = Inl (ILLEGAL_NODE_CONFIG AtLeastTwoTargets)) \<and>
   (2 \<le> length (theTargets p) \<and> length (theKeys p) \<noteq> length (theTargets p) \<longrightarrow>
      setMorph p this = Inl (ILLEGAL_NODE_CONFIG KeysTargetsMismatch)) \<and>
   (2 \<le> length (theTargets p) \<and> length (theKeys p) = length (theTargets p) \<longrightarrow>
      (\<exists>this'. setMorph p this = Inr this' \<and> n_keys this' = Some (theKeys p) \<and>
         map_option length (n_targets this') = Some (length (theTargets p)))) \<and>
   (np_create params = None \<and> (np_stream params = None \<or> np_stream params = Some []) \<longrightarrow>
      (\<forall>e. (initMorph params this = Inl e) = (setMorph (np_config params) this = Inl e)) \<and>
      ((\<exists>this'. initMorph params this = Inr this') =
         (2 \<le> length (theTargets (np_config params)) \<and>
          length (theKeys (np_config params)) = length (theTargets (np_config params))))) \<and>
   (n_handle this = None \<and> n_create this = Some p \<and> setMorph p this = Inl e \<longrightarrow>
      preCompile createKey this st = (Inl e, this, st))"
  by (auto simp: setMorph_def initMorph_def preCompile_def fillTargets_def split: sum.splits)

theorem setMorph_validation_witness:
  "setMorph exOneTarget exThisNode = Inl (ILLEGAL_NODE_CONFIG AtLeastTwoTargets) \<and>
   setMorph exMismatch exThisNode = Inl (ILLEGAL_NODE_CONFIG KeysTargetsMismatch) \<and>
   (\<exists>this'. setMorph exValid exThisNode = Inr this' \<and> n_keys this' = Some [0, 1]) \<and>
   initMorph \<lparr>np_create = None, np_stream = None, np_config = exMismatch, np_factor = None,
      np_clamp = None\<rparr> exThisNode = Inl (ILLEGAL_NODE_CONFIG KeysTargetsMismatch) \<and>
   preCompile (\<lambda>m. ''m0'') (exThisNode\<lparr>n_create := Some exOneTarget\<rparr>) exCompiled =
     (Inl (ILLEGAL_NODE_CONFIG AtLeastTwoTargets), exThisNode\<lparr>n_create := Some exOneTarget\<rparr>,
      exCompiled)"
proof -
  let ?params = "\<lparr>np_create = None, np_stream = None, np_config = exMismatch, np_factor = None,
      np_clamp = None\<rparr>"
  let ?node = "exThisNode\<lparr>n_create := Some exOneTarget\<rparr>"
  have t: "theTargets exOneTarget = [exTargetData]" "theKeys exOneTarget = [0]"
    "theTargets exMismatch = [exTargetData, exTargetData]" "theKeys exMismatch = [0, 1, 2]"
    "theTargets exValid = [exTargetData, exTargetData]" "theKeys exValid = [0, 1]"
    by (simp_all add: theTargets_def theKeys_def exOneTarget_def exMismatch_def exValid_def)
  note v = setMorph_validation [where this = exThisNode and params = ?params
      and e = "ILLEGAL_NODE_CONFIG AtLeastTwoTargets" and createKey = "\<lambda>m. ''m0''"
      and st = exCompiled]
  from v [of exOneTarget]
  have 1: "setMorph exOneTarget exThisNode = Inl (ILLEGAL_NODE_CONFIG AtLeastTwoTargets)"
    by (simp add: t)
  from v [of exMismatch]
  have 2: "setMorph exMismatch exThisNode = Inl (ILLEGAL_NODE_CONFIG KeysTargetsMismatch)"
    by (simp add: t)
  from v [of exValid]
  have 3: "\<exists>this'. setMorph exValid exThisNode = Inr this' \<and> n_keys this' = Some [0, 1]"
    by (auto simp: t)
  from v [of exMismatch] 2
  have 4: "initMorph ?params exThisNode = Inl (ILLEGAL_NODE_CONFIG KeysTargetsMismatch)"
    by simp
  have "setMorph exOneTarget ?node = Inl (ILLEGAL_NODE_CONFIG AtLeastTwoTargets)"
    by (simp add: setMorph_def t)
  with setMorph_validation [where this = ?node and params = ?params and p = exOneTarget
      and e = "ILLEGAL_NODE_CONFIG AtLeastTwoTargets" and createKey = "\<lambda>m. ''m0''"
      and st = exCompiled]
  have 5: "preCompile (\<lambda>m. ''m0'') ?node exCompiled =
     (Inl (ILLEGAL_NODE_CONFIG AtLeastTwoTargets), ?node, exCompiled)"
    by (simp add: exThisNode_def)
  from 1 2 3 4 5 show ?thesis by blast
qed

end
